theory Spec2Isabelle
  imports Main "HOL-Library.Sublist" "HOL-Library.Multiset" "HOL-Library.Word"
begin

section \<open>Values, exceptions and Python string primitives\<close>

text \<open>
  The program is \<^verbatim>\<open>src/lambda/document_processor.py\<close>. Python values that
  come out of \<^verbatim>\<open>json.loads\<close> (and the dictionaries the program builds from
  them) are values of \<open>json\<close>. A dictionary is an association list with the entries
  in insertion order; Python keeps its keys unique.
  A \<^verbatim>\<open>str\<close> is a \<open>string\<close> whose characters stand for the code points
  0 to 255.
\<close>

datatype json =
    JNull
  | JBool bool
  | JInt int
  | JFloat string
  | JStr string
  | JArr "json list"
  | JObj "(string \<times> json) list"

type_synonym item = "(string \<times> json) list"

type_synonym bytes = "8 word list"

text \<open>
  Every exception the program can meet is a subclass of \<^verbatim>\<open>Exception\<close>.
  \<open>Exception msg cause\<close> is \<^verbatim>\<open>Exception(f"msg: {str(cause)}")\<close>, the
  wrapper the program raises itself; \<open>LibraryError\<close> is any exception raised inside
  an external collaborator (object store, extraction service, record store, file system,
  PDF reader, \<^verbatim>\<open>str.format\<close>).
\<close>

datatype exn =
    JSONDecodeError
  | KeyError string
  | TypeError
  | AttributeError
  | IndexError
  | LibraryError string
  | Exception string exn

text \<open>\<^verbatim>\<open>sub in s\<close> for two strings.\<close>

fun py_in :: "string \<Rightarrow> string \<Rightarrow> bool" where
  "py_in sub [] = (sub = [])"
| "py_in sub (c # cs) = (prefix sub (c # cs) \<or> py_in sub cs)"

text \<open>
  \<^verbatim>\<open>s.find(sub, start)\<close>: the lowest index \<open>i \<ge> start\<close> at which \<open>sub\<close>
  occurs in \<open>s\<close>, or \<open>-1\<close>. \<open>find_at sub s i\<close> searches \<open>s\<close>, whose first
  character has index \<open>i\<close> in the whole string. \<open>adjust_index\<close> is what CPython
  does to a slice bound: a negative bound counts from the end, and the result is clipped
  to the string.
\<close>

fun find_at :: "string \<Rightarrow> string \<Rightarrow> nat \<Rightarrow> int" where
  "find_at sub [] i = (if sub = [] then int i else - 1)"
| "find_at sub (c # cs) i = (if prefix sub (c # cs) then int i else find_at sub cs (Suc i))"

definition adjust_index :: "nat \<Rightarrow> int \<Rightarrow> nat" where
  "adjust_index n i = (if i < 0 then nat (max 0 (i + int n)) else min (nat i) n)"

definition py_find_from :: "string \<Rightarrow> string \<Rightarrow> int \<Rightarrow> int" where
  "py_find_from s sub start =
     (let lo = (if start < 0 then nat (max 0 (start + int (length s))) else nat start)
      in if length s < lo then - 1 else find_at sub (drop lo s) lo)"

definition py_find :: "string \<Rightarrow> string \<Rightarrow> int" where
  "py_find s sub = py_find_from s sub 0"

text \<open>\<^verbatim>\<open>s[start:end]\<close>.\<close>

definition py_slice :: "string \<Rightarrow> int \<Rightarrow> int \<Rightarrow> string" where
  "py_slice s start end =
     (let lo = adjust_index (length s) start; hi = adjust_index (length s) end
      in if lo < hi then take (hi - lo) (drop lo s) else [])"

text \<open>
  \<^verbatim>\<open>s.strip()\<close> removes leading and trailing white space. Below 256 the code
  points Python counts as white space are 9 to 13, 28 to 32, 133 and 160.
\<close>

definition py_isspace :: "char \<Rightarrow> bool" where
  "py_isspace c =
     (let n = (of_char c :: nat)
      in (9 \<le> n \<and> n \<le> 13) \<or> (28 \<le> n \<and> n \<le> 32) \<or> n = 133 \<or> n = 160)"

definition py_strip :: "string \<Rightarrow> string" where
  "py_strip s = rev (dropWhile py_isspace (rev (dropWhile py_isspace s)))"

text \<open>
  \<^verbatim>\<open>s.lower()\<close>: below 256 the letters with a lower-case form are A to Z and
  the code points 192 to 222 other than 215.
\<close>

definition py_lower_char :: "char \<Rightarrow> char" where
  "py_lower_char c =
     (let n = (of_char c :: nat)
      in if (65 \<le> n \<and> n \<le> 90) \<or> (192 \<le> n \<and> n \<le> 222 \<and> n \<noteq> 215)
         then char_of (n + 32) else c)"

definition py_lower :: "string \<Rightarrow> string" where
  "py_lower s = map py_lower_char s"

text \<open>
  \<^verbatim>\<open>v[k]\<close> with a string key, \<^verbatim>\<open>v[i]\<close> with a non-negative integer index,
  and \<^verbatim>\<open>for x in v\<close>, on a value that came out of \<^verbatim>\<open>json.loads\<close>.
\<close>

fun subscript :: "json \<Rightarrow> string \<Rightarrow> exn + json" where
  "subscript (JObj kvs) k = (case map_of kvs k of None \<Rightarrow> Inl (KeyError k) | Some v \<Rightarrow> Inr v)"
| "subscript _ k = Inl TypeError"

fun py_index :: "json \<Rightarrow> nat \<Rightarrow> exn + json" where
  "py_index (JArr xs) i = (if i < length xs then Inr (xs ! i) else Inl IndexError)"
| "py_index (JStr s) i = (if i < length s then Inr (JStr [s ! i]) else Inl IndexError)"
| "py_index (JObj kvs) i = Inl (KeyError ''0'')"
| "py_index _ i = Inl TypeError"

fun py_iter :: "json \<Rightarrow> exn + json list" where
  "py_iter (JArr xs) = Inr xs"
| "py_iter (JObj kvs) = Inr (map (\<lambda>kv. JStr (fst kv)) kvs)"
| "py_iter (JStr s) = Inr (map (\<lambda>c. JStr [c]) s)"
| "py_iter _ = Inl TypeError"

section \<open>External collaborators and the state they change\<close>

text \<open>
  What the program touches outside itself. \<open>table_items\<close> are the records the record
  store holds, in the order they were written; the counters count the calls made to each
  collaborator, so that a collaborator may answer differently at each call.
\<close>

record world =
  table_items :: "item list"
  s3_calls :: nat
  bedrock_calls :: nat
  put_calls :: nat
  schema_reads :: nat
  prompt_reads :: nat
  uuid_calls :: nat
  clock_reads :: nat

text \<open>
  The collaborators themselves are parameters of the model.
  \<^item> \<open>json_loads\<close>: \<^verbatim>\<open>json.loads\<close> on a \<^verbatim>\<open>str\<close>; \<open>None\<close> is JSONDecodeError.
  \<^item> \<open>unquote_plus\<close>: \<^verbatim>\<open>urllib.parse.unquote_plus\<close> on a \<^verbatim>\<open>str\<close>.
  \<^item> \<open>sha256_hex\<close>: \<^verbatim>\<open>hashlib.sha256(content).hexdigest()\<close>.
  \<^item> \<open>pdf_pages\<close>: \<^verbatim>\<open>len(PdfReader(BytesIO(content)).pages)\<close>.
  \<^item> \<open>s3_get_object\<close>: \<^verbatim>\<open>get_object\<close>, reading the body and looking up
    \<^verbatim>\<open>ContentType\<close> (absent: \<open>None\<close>), at the given call number.
  \<^item> \<open>schema_file\<close>, \<open>prompt_file\<close>: opening and reading the two packaged files,
    which do not change after deployment.
  \<^item> \<open>format_prompt\<close>:
    \<^verbatim>\<open>prompt_template.format(schema=json.dumps(schema, indent=2))\<close>.
  \<^item> \<open>invoke_model\<close>: encoding the request and calling the extraction service with
    the prompt, the document and its media type, then reading the response body.
  \<^item> \<open>uuid4\<close>, \<open>utcnow\<close>: \<^verbatim>\<open>str(uuid.uuid4())\<close> and
    \<^verbatim>\<open>datetime.utcnow().isoformat()\<close> at the given call number.
  \<^item> \<open>put_item\<close>: \<^verbatim>\<open>table.put_item(Item=record)\<close> at the given call number;
    \<open>None\<close> is success. A put that raises stores nothing.
\<close>

record env =
  json_loads :: "string \<Rightarrow> json option"
  unquote_plus :: "string \<Rightarrow> string"
  sha256_hex :: "bytes \<Rightarrow> string"
  pdf_pages :: "bytes \<Rightarrow> exn + nat"
  s3_get_object :: "nat \<Rightarrow> json \<Rightarrow> string \<Rightarrow> exn + (bytes \<times> string option)"
  schema_file :: "exn + json"
  prompt_file :: "exn + string"
  format_prompt :: "string \<Rightarrow> json \<Rightarrow> exn + string"
  invoke_model :: "nat \<Rightarrow> string \<Rightarrow> bytes \<Rightarrow> string \<Rightarrow> exn + string"
  uuid4 :: "nat \<Rightarrow> string"
  utcnow :: "nat \<Rightarrow> string"
  put_item :: "nat \<Rightarrow> item \<Rightarrow> exn option"

text \<open>
  \<^verbatim>\<open>json.loads(v)\<close> on any value: it raises TypeError unless \<open>v\<close> is a
  \<^verbatim>\<open>str\<close>.
\<close>

fun py_json_loads :: "env \<Rightarrow> json \<Rightarrow> exn + json" where
  "py_json_loads E (JStr s) = (case json_loads E s of None \<Rightarrow> Inl JSONDecodeError | Some v \<Rightarrow> Inr v)"
| "py_json_loads E _ = Inl TypeError"

text \<open>\<^verbatim>\<open>unquote_plus(v)\<close>: a value that is no \<^verbatim>\<open>str\<close> has no \<^verbatim>\<open>replace\<close>.\<close>

fun py_unquote_plus :: "env \<Rightarrow> json \<Rightarrow> exn + string" where
  "py_unquote_plus E (JStr s) = Inr (unquote_plus E s)"
| "py_unquote_plus E _ = Inl AttributeError"

section \<open>The functions of the program\<close>

definition calculate_file_hash :: "env \<Rightarrow> bytes \<Rightarrow> string" where
  "calculate_file_hash E content = sha256_hex E content"

text \<open>
  \<open>get_page_count\<close>: the suite of the \<^verbatim>\<open>try\<close> is \<open>get_page_count_try\<close>; the
  handler \<^verbatim>\<open>except Exception\<close> turns every exception into \<^verbatim>\<open>None\<close>.
\<close>

definition get_page_count_try :: "env \<Rightarrow> bytes \<Rightarrow> string \<Rightarrow> exn + nat option" where
  "get_page_count_try E document_content content_type =
     (if py_in ''pdf'' (py_lower content_type)
      then (case pdf_pages E document_content of Inl e \<Rightarrow> Inl e | Inr n \<Rightarrow> Inr (Some n))
      else Inr None)"

definition get_page_count :: "env \<Rightarrow> bytes \<Rightarrow> string \<Rightarrow> exn + nat option" where
  "get_page_count E document_content content_type =
     (case get_page_count_try E document_content content_type of
        Inl e \<Rightarrow> Inr None
      | Inr r \<Rightarrow> Inr r)"

definition load_schema :: "env \<Rightarrow> world \<Rightarrow> (exn + json) \<times> world" where
  "load_schema E w =
     ((case schema_file E of
         Inl e \<Rightarrow> Inl (Exception ''Failed to load schema from schema.json'' e)
       | Inr j \<Rightarrow> Inr j),
      w\<lparr>schema_reads := Suc (schema_reads w)\<rparr>)"

definition load_prompt_template :: "env \<Rightarrow> world \<Rightarrow> (exn + string) \<times> world" where
  "load_prompt_template E w =
     ((case prompt_file E of
         Inl e \<Rightarrow> Inl (Exception ''Failed to load prompt from prompt.txt'' e)
       | Inr t \<Rightarrow> Inr t),
      w\<lparr>prompt_reads := Suc (prompt_reads w)\<rparr>)"

text \<open>
  \<open>parse_json_response\<close>. \<open>extract_candidate\<close> is the \<^verbatim>\<open>if\<close>/\<^verbatim>\<open>elif\<close> of
  the \<^verbatim>\<open>try\<close> suite, which rebinds the variable \<^verbatim>\<open>content\<close>. Nothing
  before \<^verbatim>\<open>json.loads\<close> raises, so when the handler
  \<^verbatim>\<open>except json.JSONDecodeError\<close> runs, \<^verbatim>\<open>content\<close> is already the
  rebound value, and that is what the handler passes to \<^verbatim>\<open>json.loads\<close>.
\<close>

definition extract_candidate :: "string \<Rightarrow> string" where
  "extract_candidate content =
     (if py_in ''```json'' content then
        (let start = py_find content ''```json'' + 7;
             end = py_find_from content ''```'' start
         in py_strip (py_slice content start end))
      else if py_in ''```'' content then
        (let start = py_find content ''```'' + 3;
             end = py_find_from content ''```'' start
         in py_strip (py_slice content start end))
      else content)"

definition parse_json_response :: "env \<Rightarrow> string \<Rightarrow> exn + json" where
  "parse_json_response E content0 =
     (let content = extract_candidate content0
      in case py_json_loads E (JStr content) of
           Inr v \<Rightarrow> Inr v
         | Inl JSONDecodeError \<Rightarrow> py_json_loads E (JStr content)
         | Inl e \<Rightarrow> Inl e)"

text \<open>
  \<open>parse_json_response\<close> is called with whatever \<^verbatim>\<open>['text']\<close> holds. On
  a list or a dictionary \<^verbatim>\<open>in\<close> is a membership test, after which
  \<^verbatim>\<open>find\<close> is a missing attribute and \<^verbatim>\<open>json.loads\<close> a TypeError; on
  anything else \<^verbatim>\<open>in\<close> is itself a TypeError.
\<close>

fun parse_json_response_any :: "env \<Rightarrow> json \<Rightarrow> exn + json" where
  "parse_json_response_any E (JStr s) = parse_json_response E s"
| "parse_json_response_any E (JArr xs) =
     (if JStr ''```json'' \<in> set xs \<or> JStr ''```'' \<in> set xs then Inl AttributeError
      else Inl TypeError)"
| "parse_json_response_any E (JObj kvs) =
     (if ''```json'' \<in> set (map fst kvs) \<or> ''```'' \<in> set (map fst kvs) then Inl AttributeError
      else Inl TypeError)"
| "parse_json_response_any E _ = Inl TypeError"

text \<open>Sequencing of steps that may raise.\<close>

definition and_then :: "exn + 'a \<Rightarrow> ('a \<Rightarrow> exn + 'b) \<Rightarrow> exn + 'b" where
  "and_then m f = (case m of Inl e \<Rightarrow> Inl e | Inr x \<Rightarrow> f x)"

definition invoke_bedrock_with_document_try ::
  "env \<Rightarrow> string \<Rightarrow> bytes \<Rightarrow> string \<Rightarrow> world \<Rightarrow> exn + json" where
  "invoke_bedrock_with_document_try E prompt_text document_content media_type w =
     and_then (invoke_model E (bedrock_calls w) prompt_text document_content media_type)
       (\<lambda>response_text.
     and_then (py_json_loads E (JStr response_text)) (\<lambda>response_body.
     and_then (subscript response_body ''content'') (\<lambda>c.
     and_then (py_index c 0) (\<lambda>c0.
     and_then (subscript c0 ''text'') (\<lambda>content.
     parse_json_response_any E content)))))"

definition invoke_bedrock_with_document ::
  "env \<Rightarrow> string \<Rightarrow> bytes \<Rightarrow> string \<Rightarrow> world \<Rightarrow> (exn + json) \<times> world" where
  "invoke_bedrock_with_document E prompt_text document_content media_type w =
     ((case invoke_bedrock_with_document_try E prompt_text document_content media_type w of
         Inl e \<Rightarrow> Inl (Exception ''Failed to invoke Bedrock with document'' e)
       | Inr v \<Rightarrow> Inr v),
      w\<lparr>bedrock_calls := Suc (bedrock_calls w)\<rparr>)"

text \<open>\<^verbatim>\<open>record[k] = v\<close> on a dictionary: an existing key keeps its place.\<close>

fun dict_set :: "item \<Rightarrow> string \<Rightarrow> json \<Rightarrow> item" where
  "dict_set [] k v = [(k, v)]"
| "dict_set (p # ps) k v = (if fst p = k then (k, v) # ps else p # dict_set ps k v)"

text \<open>
  The dictionary literal of \<open>process_document\<close> with the optional page count, and the
  loop over \<^verbatim>\<open>extracted_properties.items()\<close>, which only a dictionary has.
\<close>

definition fixed_fields ::
  "string \<Rightarrow> string \<Rightarrow> json \<Rightarrow> json \<Rightarrow> string \<Rightarrow> string \<Rightarrow> int \<Rightarrow> string \<Rightarrow> nat option \<Rightarrow> item" where
  "fixed_fields record_id key bucket upload_time processing_time file_hash document_size
       content_type page_count =
     (let record = [(''id'', JStr record_id),
                    (''document_name'', JStr key),
                    (''bucket'', bucket),
                    (''upload_time'', upload_time),
                    (''processing_time'', JStr processing_time),
                    (''file_hash'', JStr file_hash),
                    (''file_size'', JInt document_size),
                    (''content_type'', JStr content_type)]
      in case page_count of
           None \<Rightarrow> record
         | Some n \<Rightarrow> dict_set record ''page_count'' (JInt (int n)))"

fun merge_properties :: "item \<Rightarrow> (string \<times> json) list \<Rightarrow> item" where
  "merge_properties record [] = record"
| "merge_properties record ((prop_name, prop_value) # rest) =
     merge_properties (dict_set record prop_name prop_value) rest"

fun add_extracted :: "item \<Rightarrow> json \<Rightarrow> exn + item" where
  "add_extracted record (JObj props) = Inr (merge_properties record props)"
| "add_extracted record _ = Inl AttributeError"

definition store_record :: "env \<Rightarrow> item \<Rightarrow> world \<Rightarrow> (exn + item) \<times> world" where
  "store_record E record w =
     (case put_item E (put_calls w) record of
        None \<Rightarrow>
          (Inr record,
           w\<lparr>table_items := table_items w @ [record], put_calls := Suc (put_calls w)\<rparr>)
      | Some e \<Rightarrow>
          (Inl (Exception ''Failed to store record in DynamoDB'' e),
           w\<lparr>put_calls := Suc (put_calls w)\<rparr>))"

definition process_document ::
  "env \<Rightarrow> json \<Rightarrow> string \<Rightarrow> json \<Rightarrow> world \<Rightarrow> (exn + item) \<times> world" where
  "process_document E bucket key upload_time w0 =
     (let w1 = w0\<lparr>s3_calls := Suc (s3_calls w0)\<rparr> in
      case s3_get_object E (s3_calls w0) bucket key of
        Inl e \<Rightarrow> (Inl (Exception ''Failed to download document from S3'' e), w1)
      | Inr (document_content, ct) \<Rightarrow>
     (let content_type = (case ct of None \<Rightarrow> ''application/octet-stream'' | Some c \<Rightarrow> c);
          document_size = int (length document_content);
          file_hash = calculate_file_hash E document_content in
      case get_page_count E document_content content_type of
        Inl e \<Rightarrow> (Inl e, w1)
      | Inr page_count \<Rightarrow>
     (case load_schema E w1 of
        (Inl e, w2) \<Rightarrow> (Inl e, w2)
      | (Inr schema, w2) \<Rightarrow>
     (case load_prompt_template E w2 of
        (Inl e, w3) \<Rightarrow> (Inl e, w3)
      | (Inr prompt_template, w3) \<Rightarrow>
     (case format_prompt E prompt_template schema of
        Inl e \<Rightarrow> (Inl e, w3)
      | Inr prompt_text \<Rightarrow>
     (case invoke_bedrock_with_document E prompt_text document_content content_type w3 of
        (Inl e, w4) \<Rightarrow> (Inl e, w4)
      | (Inr extracted_properties, w4) \<Rightarrow>
     (let record_id = uuid4 E (uuid_calls w4);
          w5 = w4\<lparr>uuid_calls := Suc (uuid_calls w4)\<rparr>;
          processing_time = utcnow E (clock_reads w5);
          w6 = w5\<lparr>clock_reads := Suc (clock_reads w5)\<rparr>;
          record = fixed_fields record_id key bucket upload_time processing_time file_hash
                     document_size content_type page_count in
      case add_extracted record extracted_properties of
        Inl e \<Rightarrow> (Inl e, w6)
      | Inr record' \<Rightarrow> store_record E record' w6)))))))"

section \<open>The batch handler\<close>

datatype result_entry =
  ResultEntry (r_status: string) (r_document: string) (r_record_id: json)

datatype error_entry =
  ErrorEntry (e_status: string) (e_document: "string option") (e_error: exn)

text \<open>The three assignments at the head of the inner loop's body.\<close>

definition s3_fields :: "env \<Rightarrow> json \<Rightarrow> exn + (json \<times> string \<times> json)" where
  "s3_fields E s3_record =
     and_then (and_then (and_then (subscript s3_record ''s3'') (\<lambda>x. subscript x ''bucket''))
                 (\<lambda>x. subscript x ''name'')) (\<lambda>bucket.
     and_then (and_then (and_then (and_then (subscript s3_record ''s3'')
                 (\<lambda>x. subscript x ''object'')) (\<lambda>x. subscript x ''key''))
                 (py_unquote_plus E)) (\<lambda>key.
     and_then (subscript s3_record ''eventTime'') (\<lambda>upload_time.
     Inr (bucket, key, upload_time))))"

text \<open>
  The inner loop. The lists \<^verbatim>\<open>results\<close> and \<^verbatim>\<open>errors\<close> are mutated in
  place, so what was appended stays when an exception leaves the loop; the first
  component of the result is that exception.
\<close>

fun process_s3_records ::
  "env \<Rightarrow> json list \<Rightarrow> result_entry list \<times> error_entry list \<times> world \<Rightarrow>
   exn option \<times> result_entry list \<times> error_entry list \<times> world" where
  "process_s3_records E [] acc = (None, acc)"
| "process_s3_records E (s3_record # rest) (results, errors, w) =
     (case s3_fields E s3_record of
        Inl e \<Rightarrow> (Some e, results, errors, w)
      | Inr (bucket, key, upload_time) \<Rightarrow>
          (case process_document E bucket key upload_time w of
             (Inr result, w') \<Rightarrow>
               (case subscript (JObj result) ''id'' of
                  Inr rid \<Rightarrow>
                    process_s3_records E rest
                      (results @ [ResultEntry ''success'' key rid], errors, w')
                | Inl e \<Rightarrow>
                    process_s3_records E rest
                      (results, errors @ [ErrorEntry ''error'' (Some key) e], w'))
           | (Inl e, w') \<Rightarrow>
               process_s3_records E rest
                 (results, errors @ [ErrorEntry ''error'' (Some key) e], w')))"

text \<open>Unwrapping one queue record down to the list the inner loop runs over.\<close>

definition envelope_records :: "env \<Rightarrow> json \<Rightarrow> exn + json list" where
  "envelope_records E sqs_record =
     and_then (subscript sqs_record ''body'') (\<lambda>b.
     and_then (py_json_loads E b) (\<lambda>sns_message.
     and_then (subscript sns_message ''Message'') (\<lambda>m.
     and_then (py_json_loads E m) (\<lambda>s3_event.
     and_then (subscript s3_event ''Records'') py_iter))))"

fun process_sqs_records ::
  "env \<Rightarrow> json list \<Rightarrow> result_entry list \<times> error_entry list \<times> world \<Rightarrow>
   result_entry list \<times> error_entry list \<times> world" where
  "process_sqs_records E [] acc = acc"
| "process_sqs_records E (sqs_record # rest) (results, errors, w) =
     (case envelope_records E sqs_record of
        Inl e \<Rightarrow>
          process_sqs_records E rest (results, errors @ [ErrorEntry ''error'' None e], w)
      | Inr recs \<Rightarrow>
          (case process_s3_records E recs (results, errors, w) of
             (None, acc') \<Rightarrow> process_sqs_records E rest acc'
           | (Some e, results', errors', w') \<Rightarrow>
               process_sqs_records E rest
                 (results', errors' @ [ErrorEntry ''error'' None e], w')))"

text \<open>
  \<open>lambda_handler\<close>: \<^verbatim>\<open>event['Records']\<close> is read outside every \<^verbatim>\<open>try\<close>.
  The body is the dictionary handed to \<^verbatim>\<open>json.dumps\<close>; \<open>rs\<close> and \<open>es\<close>
  are the lists \<^verbatim>\<open>results\<close> and \<^verbatim>\<open>errors\<close> after the loop.
\<close>

record batch_body =
  processed :: nat
  errors :: nat
  results :: "result_entry list"
  errors_detail :: "error_entry list"

record response =
  statusCode :: nat
  body :: batch_body


definition lambda_handler :: "env \<Rightarrow> json \<Rightarrow> world \<Rightarrow> (exn + response) \<times> world" where
  "lambda_handler E event w =
     (case and_then (subscript event ''Records'') py_iter of
        Inl e \<Rightarrow> (Inl e, w)
      | Inr sqs_records \<Rightarrow>
          (case process_sqs_records E sqs_records ([], [], w) of
             (rs, es, w') \<Rightarrow>
               (Inr \<lparr>statusCode = (if es = [] then 200 else 207),
                     body = \<lparr>processed = length rs,
                             errors = length es,
                             results = rs,
                             errors_detail = es\<rparr>\<rparr>,
                w')))"

section \<open>A concrete environment\<close>

text \<open>
  To run the program on concrete inputs the parameters need values. \<open>json_loads_lite\<close>
  decodes a fragment of JSON the way \<^verbatim>\<open>json.loads\<close> does: objects, arrays,
  strings with the single-character escapes, integers, \<^verbatim>\<open>true\<close>,
  \<^verbatim>\<open>false\<close> and \<^verbatim>\<open>null\<close>; it rejects every other text. The first
  argument of the three mutually recursive functions bounds the depth of the recursion.
\<close>

definition json_ws :: "char \<Rightarrow> bool" where
  "json_ws c = (c = CHR '' '' \<or> c = CHR 0x09 \<or> c = CHR 0x0A \<or> c = CHR 0x0D)"

definition unescape :: "char \<Rightarrow> char option" where
  "unescape c =
     (if c = CHR 0x22 then Some (CHR 0x22)
      else if c = CHR 0x5C then Some (CHR 0x5C)
      else if c = CHR ''/'' then Some (CHR ''/'')
      else if c = CHR ''n'' then Some (CHR 0x0A)
      else if c = CHR ''t'' then Some (CHR 0x09)
      else if c = CHR ''r'' then Some (CHR 0x0D)
      else if c = CHR ''b'' then Some (CHR 0x08)
      else if c = CHR ''f'' then Some (CHR 0x0C)
      else None)"

fun lite_string :: "string \<Rightarrow> string \<Rightarrow> (string \<times> string) option" where
  "lite_string [] acc = None"
| "lite_string [c] acc = (if c = CHR 0x22 then Some (rev acc, []) else None)"
| "lite_string (c # d # cs) acc =
     (if c = CHR 0x22 then Some (rev acc, d # cs)
      else if c = CHR 0x5C then
        (case unescape d of None \<Rightarrow> None | Some x \<Rightarrow> lite_string cs (x # acc))
      else if (of_char c :: nat) < 32 then None
      else lite_string (d # cs) (c # acc))"

definition is_digit :: "char \<Rightarrow> bool" where
  "is_digit c = (let n = (of_char c :: nat) in 48 \<le> n \<and> n \<le> 57)"

definition digits_value :: "string \<Rightarrow> int" where
  "digits_value ds = foldl (\<lambda>a c. 10 * a + (int (of_char c) - 48)) 0 ds"

definition lite_number :: "string \<Rightarrow> (json \<times> string) option" where
  "lite_number s =
     (let neg = prefix ''-'' s;
          t = (if neg then drop 1 s else s);
          ds = takeWhile is_digit t;
          r = dropWhile is_digit t
      in if ds = [] \<or> (1 < length ds \<and> prefix ''0'' ds) then None
         else if prefix ''.'' r \<or> prefix ''e'' r \<or> prefix ''E'' r then None
         else Some (JInt (if neg then - digits_value ds else digits_value ds), r))"

fun lite_value :: "string \<Rightarrow> string \<Rightarrow> (json \<times> string) option"
  and lite_elements :: "string \<Rightarrow> string \<Rightarrow> json list \<Rightarrow> (json list \<times> string) option"
  and lite_members :: "string \<Rightarrow> string \<Rightarrow> item \<Rightarrow> (item \<times> string) option" where
  "lite_value [] s = None"
| "lite_value (f # fuel) s =
     (case dropWhile json_ws s of
        [] \<Rightarrow> None
      | c # cs \<Rightarrow>
          if c = CHR 0x22 then
            (case lite_string cs [] of None \<Rightarrow> None | Some (t, r) \<Rightarrow> Some (JStr t, r))
          else if c = CHR ''['' then
            (if prefix '']'' (dropWhile json_ws cs)
             then Some (JArr [], drop 1 (dropWhile json_ws cs))
             else (case lite_elements fuel cs [] of
                     None \<Rightarrow> None
                   | Some (vs, r) \<Rightarrow> Some (JArr vs, r)))
          else if c = CHR ''{'' then
            (if prefix ''}'' (dropWhile json_ws cs)
             then Some (JObj [], drop 1 (dropWhile json_ws cs))
             else (case lite_members fuel cs [] of
                     None \<Rightarrow> None
                   | Some (kvs, r) \<Rightarrow> Some (JObj kvs, r)))
          else if prefix ''true'' (c # cs) then Some (JBool True, drop 4 (c # cs))
          else if prefix ''false'' (c # cs) then Some (JBool False, drop 5 (c # cs))
          else if prefix ''null'' (c # cs) then Some (JNull, drop 4 (c # cs))
          else lite_number (c # cs))"
| "lite_elements [] s acc = None"
| "lite_elements (f # fuel) s acc =
     (case lite_value fuel s of
        None \<Rightarrow> None
      | Some (v, r) \<Rightarrow>
          (case dropWhile json_ws r of
             [] \<Rightarrow> None
           | d # ds \<Rightarrow>
               if d = CHR '','' then lite_elements fuel ds (acc @ [v])
               else if d = CHR '']'' then Some (acc @ [v], ds)
               else None))"
| "lite_members [] s acc = None"
| "lite_members (f # fuel) s acc =
     (case dropWhile json_ws s of
        [] \<Rightarrow> None
      | q # qs \<Rightarrow>
          if q \<noteq> CHR 0x22 then None
          else
            (case lite_string qs [] of
               None \<Rightarrow> None
             | Some (k, r) \<Rightarrow>
                 (case dropWhile json_ws r of
                    [] \<Rightarrow> None
                  | col # r' \<Rightarrow>
                      if col \<noteq> CHR '':'' then None
                      else
                        (case lite_value fuel r' of
                           None \<Rightarrow> None
                         | Some (v, r'') \<Rightarrow>
                             (case dropWhile json_ws r'' of
                                [] \<Rightarrow> None
                              | d # ds \<Rightarrow>
                                  if d = CHR '','' then lite_members fuel ds (dict_set acc k v)
                                  else if d = CHR ''}'' then Some (dict_set acc k v, ds)
                                  else None)))))"

definition json_loads_lite :: "string \<Rightarrow> json option" where
  "json_loads_lite s =
     (case lite_value (CHR ''.'' # s) s of
        None \<Rightarrow> None
      | Some (v, r) \<Rightarrow> if dropWhile json_ws r = [] then Some v else None)"

text \<open>
  \<open>json_escape\<close> writes a string the way it stands inside a JSON string literal: this
  is how one notification layer carries the next.
\<close>

definition json_escape :: "string \<Rightarrow> string" where
  "json_escape s =
     concat (map (\<lambda>c. if c = CHR 0x22 \<or> c = CHR 0x5C then [CHR 0x5C, c]
                      else if c = CHR 0x0A then [CHR 0x5C, CHR ''n'']
                      else [c]) s)"

text \<open>
  \<open>demo_env\<close>: an object store that knows every key but \<^verbatim>\<open>missing.pdf\<close> and
  serves each object as an empty PDF, an extraction service that answers
  \<open>demo_completion\<close>, and a record store that accepts every record. Keys are decoded
  by replacing \<^verbatim>\<open>+\<close> with a space.
\<close>

definition demo_completion :: string where
  "demo_completion = ''```json'' @ [CHR 0x0A] @ ''{\"title\":\"T\"}'' @ [CHR 0x0A] @ ''```''"

definition demo_env :: env where
  "demo_env =
     \<lparr>json_loads = json_loads_lite,
      unquote_plus = map (\<lambda>c. if c = CHR ''+'' then CHR '' '' else c),
      sha256_hex = (\<lambda>content. ''e3b0c442''),
      pdf_pages = (\<lambda>content. if content = [] then Inl (LibraryError ''EmptyFileError'') else Inr 1),
      s3_get_object = (\<lambda>n bucket key.
         if key = ''missing.pdf'' then Inl (LibraryError ''NoSuchKey'')
         else Inr ([], Some ''application/pdf'')),
      schema_file = Inr (JObj [(''title'', JStr ''string'')]),
      prompt_file = Inr ''Extract {schema}'',
      format_prompt = (\<lambda>template schema. Inr template),
      invoke_model = (\<lambda>n prompt_text content media_type.
         Inr (''{\"content\":[{\"type\":\"text\",\"text\":\"'' @ json_escape demo_completion
              @ ''\"}]}'')),
      uuid4 = (\<lambda>n. ''id-'' @ replicate n (CHR ''x'')),
      utcnow = (\<lambda>n. ''2024-01-01T00:00:00''),
      put_item = (\<lambda>n record. None)\<rparr>"

definition world0 :: world where
  "world0 =
     \<lparr>table_items = [], s3_calls = 0, bedrock_calls = 0, put_calls = 0, schema_reads = 0,
      prompt_reads = 0, uuid_calls = 0, clock_reads = 0\<rparr>"

text \<open>
  \<open>override_env\<close> is \<open>demo_env\<close> with an extraction service whose completion is
  \<^verbatim>\<open>{"bucket":"override"}\<close>: an extracted field with the name of a fixed one.
\<close>

definition override_env :: env where
  "override_env =
     demo_env\<lparr>invoke_model := (\<lambda>n prompt_text content media_type.
        Inr (''{\"content\":[{\"type\":\"text\",\"text\":\"''
             @ json_escape ''{\"bucket\":\"override\"}'' @ ''\"}]}''))\<rparr>"

text \<open>
  Concrete batches: \<open>s3_notification key\<close> is the text of one document-change record,
  \<open>sqs_record_of texts\<close> a queue record whose body carries a notification whose
  \<^verbatim>\<open>Message\<close> carries the list of the given record texts, and
  \<open>batch_event\<close> the event made of queue records.
\<close>

definition s3_notification :: "string \<Rightarrow> string" where
  "s3_notification key =
     ''{\"s3\":{\"bucket\":{\"name\":\"b\"},\"object\":{\"key\":\"'' @ key
     @ ''\"}},\"eventTime\":\"t\"}''"

text \<open>What \<^verbatim>\<open>json.loads\<close> makes of \<open>s3_notification key\<close>.\<close>

definition s3_record_of :: "string \<Rightarrow> json" where
  "s3_record_of key =
     JObj [(''s3'', JObj [(''bucket'', JObj [(''name'', JStr ''b'')]),
                          (''object'', JObj [(''key'', JStr key)])]),
           (''eventTime'', JStr ''t'')]"

fun join_with :: "string \<Rightarrow> string list \<Rightarrow> string" where
  "join_with sep [] = []"
| "join_with sep [x] = x"
| "join_with sep (x # y # ys) = x @ sep @ join_with sep (y # ys)"

definition sqs_record_of :: "string list \<Rightarrow> json" where
  "sqs_record_of texts =
     JObj [(''body'',
            JStr (''{\"Message\":\"''
                  @ json_escape (''{\"Records\":['' @ join_with '','' texts @ '']}'')
                  @ ''\"}''))]"

definition batch_event :: "json list \<Rightarrow> json" where
  "batch_event sqs_records = JObj [(''Records'', JArr sqs_records)]"

text \<open>
  \<open>demo_batch\<close>: an envelope with three document notifications, the second for the
  key the object store does not know, and an envelope whose body is no JSON.
\<close>

definition demo_batch :: "json list" where
  "demo_batch =
     [sqs_record_of [s3_notification ''k1.pdf'', s3_notification ''missing.pdf'',
                     s3_notification ''k3.pdf''],
      JObj [(''body'', JStr ''{not json'')]]"

definition demo_batch_response :: response where
  "demo_batch_response =
     \<lparr>statusCode = 207,
      body = \<lparr>processed = 2, errors = 2,
              results = [ResultEntry ''success'' ''k1.pdf'' (JStr ''id-''),
                         ResultEntry ''success'' ''k3.pdf'' (JStr ''id-x'')],
              errors_detail =
                [ErrorEntry ''error'' (Some ''missing.pdf'')
                   (Exception ''Failed to download document from S3''
                      (LibraryError ''NoSuchKey'')),
                 ErrorEntry ''error'' None JSONDecodeError]\<rparr>\<rparr>"

text \<open>
  In \<open>demo_env\<close> \<open>demo_item rid key\<close> is the record written for the document
  \<open>key\<close>, and \<open>world_after items fetches\<close> the world in which \<open>fetches\<close> objects
  have been asked for and \<open>items\<close> have been written.
\<close>

definition demo_item :: "string \<Rightarrow> string \<Rightarrow> item" where
  "demo_item rid key =
     [(''id'', JStr rid), (''document_name'', JStr key), (''bucket'', JStr ''b''),
      (''upload_time'', JStr ''t''), (''processing_time'', JStr ''2024-01-01T00:00:00''),
      (''file_hash'', JStr ''e3b0c442''), (''file_size'', JInt 0),
      (''content_type'', JStr ''application/pdf''), (''title'', JStr ''T'')]"

definition world_after :: "item list \<Rightarrow> nat \<Rightarrow> world" where
  "world_after items fetches =
     \<lparr>table_items = items, s3_calls = fetches, bedrock_calls = length items,
      put_calls = length items, schema_reads = length items, prompt_reads = length items,
      uuid_calls = length items, clock_reads = length items\<rparr>"

section \<open>Notions used to state the properties of the batch handler\<close>

text \<open>
  A document-change record is well formed when the three assignments at the head of the
  inner loop's body succeed on it. \<open>notified_keys\<close> are the decoded keys of all
  well-formed records of an envelope that unwraps; \<open>reached_keys\<close> those of the
  well-formed records that stand before the first malformed one. An envelope fails when
  it does not unwrap or holds a malformed record. \<open>described_keys\<close> are the keys the
  entries of a response body carry.
\<close>

definition record_ok :: "env \<Rightarrow> json \<Rightarrow> bool" where
  "record_ok E r = (case s3_fields E r of Inl e \<Rightarrow> False | Inr x \<Rightarrow> True)"

definition keys_of_records :: "env \<Rightarrow> json list \<Rightarrow> string list" where
  "keys_of_records E recs =
     concat (map (\<lambda>r. case s3_fields E r of Inl e \<Rightarrow> [] | Inr (b, k, t) \<Rightarrow> [k]) recs)"

definition notified_keys :: "env \<Rightarrow> json \<Rightarrow> string list" where
  "notified_keys E sqs_record =
     (case envelope_records E sqs_record of
        Inl e \<Rightarrow> []
      | Inr recs \<Rightarrow> keys_of_records E recs)"

definition reached_keys :: "env \<Rightarrow> json \<Rightarrow> string list" where
  "reached_keys E sqs_record =
     (case envelope_records E sqs_record of
        Inl e \<Rightarrow> []
      | Inr recs \<Rightarrow> keys_of_records E (takeWhile (record_ok E) recs))"

definition envelope_failed :: "env \<Rightarrow> json \<Rightarrow> bool" where
  "envelope_failed E sqs_record =
     (case envelope_records E sqs_record of
        Inl e \<Rightarrow> True
      | Inr recs \<Rightarrow> \<not> list_all (record_ok E) recs)"

text \<open>
  \<open>document_entries key res\<close>: what one pass through the inner \<^verbatim>\<open>try\<close> appends
  to \<^verbatim>\<open>results\<close> and to \<^verbatim>\<open>errors\<close> when \<open>process_document\<close> ends with
  \<open>res\<close>.
\<close>

definition document_entries ::
  "string \<Rightarrow> exn + item \<Rightarrow> result_entry list \<times> error_entry list" where
  "document_entries key res =
     (case res of
        Inl e \<Rightarrow> ([], [ErrorEntry ''error'' (Some key) e])
      | Inr result \<Rightarrow>
          (case subscript (JObj result) ''id'' of
             Inl e \<Rightarrow> ([], [ErrorEntry ''error'' (Some key) e])
           | Inr rid \<Rightarrow> ([ResultEntry ''success'' key rid], [])))"

definition error_keys :: "error_entry list \<Rightarrow> string list" where
  "error_keys es = concat (map (\<lambda>e. case e_document e of None \<Rightarrow> [] | Some k \<Rightarrow> [k]) es)"

definition described_keys :: "batch_body \<Rightarrow> string list" where
  "described_keys b = map r_document (results b) @ error_keys (errors_detail b)"

section \<open>Structural inspection\<close>

lemma py_in_iff_sublist: "py_in sub s \<longleftrightarrow> sublist sub s"
  by (induction s) (auto simp: sublist_Cons_right)

text \<open>
  Claim C8. For every byte content and every content-type string \<open>get_page_count\<close>
  returns and never raises; it returns \<^verbatim>\<open>None\<close> when the lower-cased content
  type does not contain \<^verbatim>\<open>pdf\<close>, and it returns \<^verbatim>\<open>None\<close> when the PDF
  reader fails on the content.
\<close>

theorem get_page_count_never_raises:
  "(\<exists>r. get_page_count E content ct = Inr r)
   \<and> (\<not> py_in ''pdf'' (py_lower ct) \<longrightarrow> get_page_count E content ct = Inr None)
   \<and> (\<forall>e. pdf_pages E content = Inl e \<longrightarrow> get_page_count E content ct = Inr None)"
  by (auto simp: get_page_count_def get_page_count_try_def split: sum.split)

theorem get_page_count_never_raises_witness:
  "\<not> py_in ''pdf'' (py_lower ''text/plain'')
   \<and> get_page_count demo_env [1, 2] ''text/plain'' = Inr None
   \<and> pdf_pages demo_env [] = Inl (LibraryError ''EmptyFileError'')
   \<and> get_page_count demo_env [] ''Application/PDF'' = Inr None"
proof -
  have a: "\<not> py_in ''pdf'' (py_lower ''text/plain'')"
    by (simp add: py_lower_def py_lower_char_def)
  have b: "pdf_pages demo_env [] = Inl (LibraryError ''EmptyFileError'')"
    by (simp add: demo_env_def)
  from get_page_count_never_raises [of demo_env "[1, 2]" "''text/plain''"] a
  have c: "get_page_count demo_env [1, 2] ''text/plain'' = Inr None" by blast
  from get_page_count_never_raises [of demo_env "[]" "''Application/PDF''"] b
  have d: "get_page_count demo_env [] ''Application/PDF'' = Inr None" by blast
  from a b c d show ?thesis by blast
qed

section \<open>Record assembly\<close>

lemma map_of_dict_set: "map_of (dict_set r k v) = (map_of r)(k \<mapsto> v)"
  by (induction r) auto

lemma map_of_merge_properties:
  "map_of (merge_properties r props) = map_of r ++ map_of (rev props)"
proof (induction props arbitrary: r)
  case Nil
  then show ?case by simp
next
  case (Cons p props)
  obtain k v where p: "p = (k, v)" by (cases p)
  have "map_of (merge_properties r (p # props)) = map_of (dict_set r k v) ++ map_of (rev props)"
    using Cons.IH [of "dict_set r k v"] p by simp
  also have "\<dots> = map_of r ++ ([k \<mapsto> v] ++ map_of (rev props))"
    by (simp add: map_of_dict_set)
  also have "[k \<mapsto> v] ++ map_of (rev props) = map_of (rev (p # props))"
    using p by simp
  finally show ?case .
qed

lemma map_of_rev_distinct: "distinct (map fst xs) \<Longrightarrow> map_of (rev xs) = map_of xs"
  by (rule map_of_inject_set [THEN iffD2]) (simp_all add: rev_map [symmetric])

lemma add_extracted_overrides:
  assumes "add_extracted (fixed_fields rid key bucket ut pt fh sz ct pc) extracted = Inr record"
  shows "\<exists>props. extracted = JObj props
     \<and> map_of record = map_of (fixed_fields rid key bucket ut pt fh sz ct pc) ++ map_of (rev props)
     \<and> (distinct (map fst props) \<longrightarrow> (\<forall>kv \<in> set props. map_of record (fst kv) = Some (snd kv)))"
proof -
  from assms obtain props where e: "extracted = JObj props"
    by (cases extracted) simp_all
  with assms have r: "record = merge_properties (fixed_fields rid key bucket ut pt fh sz ct pc) props"
    by simp
  have m: "map_of record = map_of (fixed_fields rid key bucket ut pt fh sz ct pc) ++ map_of (rev props)"
    unfolding r by (rule map_of_merge_properties)
  have "map_of record (fst kv) = Some (snd kv)"
    if d: "distinct (map fst props)" and kv: "kv \<in> set props" for kv
  proof -
    from d kv have "map_of props (fst kv) = Some (snd kv)" by simp
    with d show ?thesis by (simp add: m map_of_rev_distinct map_add_Some_iff)
  qed
  with e m show ?thesis by blast
qed

section \<open>What one document does to the world\<close>

lemma load_schema_frame:
  "load_schema E w = (r, w') \<Longrightarrow>
     table_items w' = table_items w \<and> put_calls w' = put_calls w \<and> s3_calls w' = s3_calls w
     \<and> schema_reads w' = Suc (schema_reads w) \<and> prompt_reads w' = prompt_reads w"
  by (auto simp: load_schema_def)

lemma load_prompt_template_frame:
  "load_prompt_template E w = (r, w') \<Longrightarrow>
     table_items w' = table_items w \<and> put_calls w' = put_calls w \<and> s3_calls w' = s3_calls w
     \<and> schema_reads w' = schema_reads w \<and> prompt_reads w' = Suc (prompt_reads w)"
  by (auto simp: load_prompt_template_def)

lemma invoke_bedrock_frame:
  "invoke_bedrock_with_document E p d m w = (r, w') \<Longrightarrow>
     table_items w' = table_items w \<and> put_calls w' = put_calls w \<and> s3_calls w' = s3_calls w
     \<and> schema_reads w' = schema_reads w \<and> prompt_reads w' = prompt_reads w"
  by (auto simp: invoke_bedrock_with_document_def)

lemma store_record_writes:
  "store_record E record w = (r, w') \<Longrightarrow>
     put_calls w' = Suc (put_calls w) \<and> s3_calls w' = s3_calls w
     \<and> schema_reads w' = schema_reads w \<and> prompt_reads w' = prompt_reads w
     \<and> (case r of
           Inr x \<Rightarrow> x = record \<and> table_items w' = table_items w @ [record]
         | Inl e \<Rightarrow> table_items w' = table_items w
                    \<and> (\<exists>c. e = Exception ''Failed to store record in DynamoDB'' c))"
  by (auto simp: store_record_def split: option.splits)

text \<open>
  Claim C5. When \<open>process_document\<close> succeeds, the record store has been called exactly
  once and holds exactly one more record, the one returned. When it fails, the record
  store holds what it held before, and it has not been called at all unless the failure
  is that of the write itself.
\<close>

theorem process_document_single_write:
  assumes "process_document E bucket key upload_time w = (r, w')"
  shows "case r of
           Inr record \<Rightarrow>
             table_items w' = table_items w @ [record] \<and> put_calls w' = Suc (put_calls w)
         | Inl e \<Rightarrow>
             table_items w' = table_items w
             \<and> (put_calls w' = put_calls w
                \<or> (\<exists>c. e = Exception ''Failed to store record in DynamoDB'' c)
                  \<and> put_calls w' = Suc (put_calls w))"
  using assms
  unfolding process_document_def Let_def
  by (auto split: sum.splits prod.splits
           dest!: load_schema_frame load_prompt_template_frame invoke_bedrock_frame
                  store_record_writes)

theorem process_document_single_write_witness:
  "process_document demo_env (JStr ''b'') ''k.pdf'' (JStr ''t'') world0 =
     (Inr [(''id'', JStr ''id-''), (''document_name'', JStr ''k.pdf''),
           (''bucket'', JStr ''b''), (''upload_time'', JStr ''t''),
           (''processing_time'', JStr ''2024-01-01T00:00:00''),
           (''file_hash'', JStr ''e3b0c442''), (''file_size'', JInt 0),
           (''content_type'', JStr ''application/pdf''), (''title'', JStr ''T'')],
      world0\<lparr>table_items :=
               [[(''id'', JStr ''id-''), (''document_name'', JStr ''k.pdf''),
                 (''bucket'', JStr ''b''), (''upload_time'', JStr ''t''),
                 (''processing_time'', JStr ''2024-01-01T00:00:00''),
                 (''file_hash'', JStr ''e3b0c442''), (''file_size'', JInt 0),
                 (''content_type'', JStr ''application/pdf''), (''title'', JStr ''T'')]],
             s3_calls := 1, bedrock_calls := 1, put_calls := 1, schema_reads := 1,
             prompt_reads := 1, uuid_calls := 1, clock_reads := 1\<rparr>)
   \<and> process_document demo_env (JStr ''b'') ''missing.pdf'' (JStr ''t'') world0 =
     (Inl (Exception ''Failed to download document from S3'' (LibraryError ''NoSuchKey'')),
      world0\<lparr>s3_calls := 1\<rparr>)
   \<and> put_calls (world0\<lparr>s3_calls := 1\<rparr>) = put_calls world0
   \<and> table_items (world0\<lparr>s3_calls := 1\<rparr>) = table_items world0"
proof -
  have a: "process_document demo_env (JStr ''b'') ''k.pdf'' (JStr ''t'') world0 =
     (Inr [(''id'', JStr ''id-''), (''document_name'', JStr ''k.pdf''),
           (''bucket'', JStr ''b''), (''upload_time'', JStr ''t''),
           (''processing_time'', JStr ''2024-01-01T00:00:00''),
           (''file_hash'', JStr ''e3b0c442''), (''file_size'', JInt 0),
           (''content_type'', JStr ''application/pdf''), (''title'', JStr ''T'')],
      world0\<lparr>table_items :=
               [[(''id'', JStr ''id-''), (''document_name'', JStr ''k.pdf''),
                 (''bucket'', JStr ''b''), (''upload_time'', JStr ''t''),
                 (''processing_time'', JStr ''2024-01-01T00:00:00''),
                 (''file_hash'', JStr ''e3b0c442''), (''file_size'', JInt 0),
                 (''content_type'', JStr ''application/pdf''), (''title'', JStr ''T'')]],
             s3_calls := 1, bedrock_calls := 1, put_calls := 1, schema_reads := 1,
             prompt_reads := 1, uuid_calls := 1, clock_reads := 1\<rparr>)"
    by code_simp
  have b: "process_document demo_env (JStr ''b'') ''missing.pdf'' (JStr ''t'') world0 =
     (Inl (Exception ''Failed to download document from S3'' (LibraryError ''NoSuchKey'')),
      world0\<lparr>s3_calls := 1\<rparr>)"
    by code_simp
  from process_document_single_write [OF b]
  have c: "table_items (world0\<lparr>s3_calls := 1\<rparr>) = table_items world0
           \<and> put_calls (world0\<lparr>s3_calls := 1\<rparr>) = put_calls world0"
    by simp
  from process_document_single_write [OF a] a b c show ?thesis by simp
qed

section \<open>The record one document stores\<close>

lemma invoke_bedrock_result_calls:
  "bedrock_calls w1 = bedrock_calls w2 \<Longrightarrow>
     fst (invoke_bedrock_with_document E p d m w1) = fst (invoke_bedrock_with_document E p d m w2)"
  by (simp add: invoke_bedrock_with_document_def invoke_bedrock_with_document_try_def)

text \<open>
  Claim C4. When \<open>process_document\<close> succeeds, the object was fetched, the schema and
  the prompt were loaded and rendered, and the extraction call made with them returned a
  dictionary \<open>props\<close>. The record that is returned, and written to the record store, is
  the fixed fields of this document with every entry of \<open>props\<close> merged over them in
  order, later entries over earlier ones; so (the keys of a dictionary being distinct)
  every extracted entry is in the final record with its extracted value, whether or not
  a fixed field has the same name.
\<close>

theorem extracted_properties_override_fixed_fields:
  assumes "process_document E bucket key upload_time w = (Inr stored, w')"
  shows "\<exists>content ct content_type pc schema template prompt_text props fixed.
      s3_get_object E (s3_calls w) bucket key = Inr (content, ct)
    \<and> content_type = (case ct of None \<Rightarrow> ''application/octet-stream'' | Some c \<Rightarrow> c)
    \<and> get_page_count E content content_type = Inr pc
    \<and> schema_file E = Inr schema \<and> prompt_file E = Inr template
    \<and> format_prompt E template schema = Inr prompt_text
    \<and> fst (invoke_bedrock_with_document E prompt_text content content_type w)
        = Inr (JObj props)
    \<and> fixed = fixed_fields (uuid4 E (uuid_calls w)) key bucket upload_time
                (utcnow E (clock_reads w)) (calculate_file_hash E content)
                (int (length content)) content_type pc
    \<and> stored = merge_properties fixed props
    \<and> map_of stored = map_of fixed ++ map_of (rev props)
    \<and> (distinct (map fst props) \<longrightarrow> (\<forall>kv \<in> set props. map_of stored (fst kv) = Some (snd kv)))
    \<and> table_items w' = table_items w @ [stored]"
proof -
  from assms obtain content ct where
    g: "s3_get_object E (s3_calls w) bucket key = Inr (content, ct)"
    unfolding process_document_def Let_def
    by (auto split: sum.splits)
  define content_type where
    "content_type = (case ct of None \<Rightarrow> ''application/octet-stream'' | Some c \<Rightarrow> c)"
  define w1 where "w1 = w\<lparr>s3_calls := Suc (s3_calls w)\<rparr>"
  from assms g obtain pc where
    pc: "get_page_count E content content_type = Inr pc"
    unfolding process_document_def Let_def content_type_def
    by (auto split: sum.splits)
  from assms g pc obtain schema where
    sc: "schema_file E = Inr schema"
    unfolding process_document_def Let_def content_type_def load_schema_def
    by (auto split: sum.splits)
  from assms g pc sc obtain template where
    tp: "prompt_file E = Inr template"
    unfolding process_document_def Let_def content_type_def load_schema_def
      load_prompt_template_def
    by (auto split: sum.splits)
  from assms g pc sc tp obtain prompt_text where
    fp: "format_prompt E template schema = Inr prompt_text"
    unfolding process_document_def Let_def content_type_def load_schema_def
      load_prompt_template_def
    by (auto split: sum.splits)
  define w3 where
    "w3 = w\<lparr>s3_calls := Suc (s3_calls w), schema_reads := Suc (schema_reads w),
             prompt_reads := Suc (prompt_reads w)\<rparr>"
  obtain x w4 where
    iv: "invoke_bedrock_with_document E prompt_text content content_type w3 = (x, w4)"
    by (cases "invoke_bedrock_with_document E prompt_text content content_type w3")
  have w4: "uuid_calls w4 = uuid_calls w" "clock_reads w4 = clock_reads w"
    "table_items w4 = table_items w" "put_calls w4 = put_calls w"
    using iv by (auto simp: invoke_bedrock_with_document_def w3_def)
  define fixed where
    "fixed = fixed_fields (uuid4 E (uuid_calls w)) key bucket upload_time
                (utcnow E (clock_reads w)) (calculate_file_hash E content)
                (int (length content)) content_type pc"
  define w6 where
    "w6 = w4\<lparr>uuid_calls := Suc (uuid_calls w4), clock_reads := Suc (clock_reads w4)\<rparr>"
  have pd: "process_document E bucket key upload_time w =
     (case x of
        Inl e \<Rightarrow> (Inl e, w4)
      | Inr extracted \<Rightarrow>
          (case add_extracted fixed extracted of
             Inl e \<Rightarrow> (Inl e, w6)
           | Inr r \<Rightarrow> store_record E r w6))"
    using g pc sc tp fp iv w4
    unfolding process_document_def Let_def content_type_def w3_def fixed_def w6_def
    by (simp add: load_schema_def load_prompt_template_def split: sum.split)
  from assms pd obtain extracted where x: "x = Inr extracted"
    by (cases x) simp_all
  from assms pd x obtain r where ae: "add_extracted fixed extracted = Inr r"
    and st: "store_record E r w6 = (Inr stored, w')"
    by (cases "add_extracted fixed extracted") simp_all
  from add_extracted_overrides [OF ae [unfolded fixed_def]] obtain props where
    pr: "extracted = JObj props" "map_of r = map_of fixed ++ map_of (rev props)"
      "distinct (map fst props) \<longrightarrow> (\<forall>kv \<in> set props. map_of r (fst kv) = Some (snd kv))"
    unfolding fixed_def by blast
  from ae pr(1) have rm: "r = merge_properties fixed props" by simp
  from store_record_writes [OF st] have sr: "stored = r" "table_items w' = table_items w6 @ [r]"
    by simp_all
  have ti: "table_items w6 = table_items w" by (simp add: w6_def w4)
  have fi: "fst (invoke_bedrock_with_document E prompt_text content content_type w)
        = Inr (JObj props)"
    using iv x pr(1)
      invoke_bedrock_result_calls [of w w3 E prompt_text content content_type]
    by (simp add: w3_def)
  show ?thesis
    using g pc sc tp fp fi rm pr(2,3) sr ti
    by (intro exI [of _ content] exI [of _ ct] exI [of _ content_type] exI [of _ pc]
          exI [of _ schema] exI [of _ template] exI [of _ prompt_text] exI [of _ props]
          exI [of _ fixed])
       (simp add: content_type_def fixed_def)
qed


lemma override_env_completion:
  "fst (invoke_bedrock_with_document override_env ''Extract {schema}'' [] ''application/pdf''
          world0)
     = Inr (JObj [(''bucket'', JStr ''override'')])"
  by code_simp

theorem extracted_properties_override_fixed_fields_witness:
  "process_document override_env (JStr ''b'') ''k'' (JStr ''t'') world0
     = (Inr [(''id'', JStr ''id-''), (''document_name'', JStr ''k''),
             (''bucket'', JStr ''override''), (''upload_time'', JStr ''t''),
             (''processing_time'', JStr ''2024-01-01T00:00:00''),
             (''file_hash'', JStr ''e3b0c442''), (''file_size'', JInt 0),
             (''content_type'', JStr ''application/pdf'')],
        world_after
          [[(''id'', JStr ''id-''), (''document_name'', JStr ''k''),
            (''bucket'', JStr ''override''), (''upload_time'', JStr ''t''),
            (''processing_time'', JStr ''2024-01-01T00:00:00''),
            (''file_hash'', JStr ''e3b0c442''), (''file_size'', JInt 0),
            (''content_type'', JStr ''application/pdf'')]] 1)
   \<and> fst (invoke_bedrock_with_document override_env ''Extract {schema}'' []
             ''application/pdf'' world0)
       = Inr (JObj [(''bucket'', JStr ''override'')])
   \<and> map_of [(''id'', JStr ''id-''), (''document_name'', JStr ''k''),
             (''bucket'', JStr ''override''), (''upload_time'', JStr ''t''),
             (''processing_time'', JStr ''2024-01-01T00:00:00''),
             (''file_hash'', JStr ''e3b0c442''), (''file_size'', JInt 0),
             (''content_type'', JStr ''application/pdf'')] ''bucket''
       = Some (JStr ''override'')"
proof -
  define stored where
    "stored = [(''id'', JStr ''id-''), (''document_name'', JStr ''k''),
             (''bucket'', JStr ''override''), (''upload_time'', JStr ''t''),
             (''processing_time'', JStr ''2024-01-01T00:00:00''),
             (''file_hash'', JStr ''e3b0c442''), (''file_size'', JInt 0),
             (''content_type'', JStr ''application/pdf'')]"
  have a: "process_document override_env (JStr ''b'') ''k'' (JStr ''t'') world0
     = (Inr stored, world_after [stored] 1)"
    unfolding stored_def by code_simp
  from extracted_properties_override_fixed_fields [OF a]
  obtain content ct content_type template schema prompt_text props where
    s: "s3_get_object override_env (s3_calls world0) (JStr ''b'') ''k'' = Inr (content, ct)"
      "content_type = (case ct of None \<Rightarrow> ''application/octet-stream'' | Some c \<Rightarrow> c)"
      "schema_file override_env = Inr schema" "prompt_file override_env = Inr template"
      "format_prompt override_env template schema = Inr prompt_text"
      "fst (invoke_bedrock_with_document override_env prompt_text content content_type world0)
        = Inr (JObj props)"
      "distinct (map fst props) \<longrightarrow> (\<forall>kv \<in> set props. map_of stored (fst kv) = Some (snd kv))"
    by blast
  from s(1) have c: "content = []" "ct = Some ''application/pdf''"
    by (simp_all add: override_env_def demo_env_def)
  from s(4) have t: "template = ''Extract {schema}''"
    by (simp add: override_env_def demo_env_def)
  from s(5) have p: "prompt_text = template"
    by (simp add: override_env_def demo_env_def)
  from s(6) override_env_completion have "props = [(''bucket'', JStr ''override'')]"
    by (simp add: s(2) c t p)
  with s(7) have "map_of stored ''bucket'' = Some (JStr ''override'')"
    by simp
  with a override_env_completion show ?thesis
    unfolding stored_def by blast
qed

section \<open>The response parser\<close>

lemma find_at_first:
  "(\<And>k. k < length pre \<Longrightarrow> \<not> prefix sub (drop k (pre @ sub @ post))) \<Longrightarrow>
   find_at sub (pre @ sub @ post) i = int (i + length pre)"
proof (induction pre arbitrary: i)
  case Nil
  have "prefix sub (sub @ post)" by simp
  then show ?case by (cases "sub @ post") simp_all
next
  case (Cons p ps)
  from Cons.prems [of 0] have n: "\<not> prefix sub (p # ps @ sub @ post)" by simp
  have "find_at sub (ps @ sub @ post) (Suc i) = int (Suc i + length ps)"
  proof (rule Cons.IH)
    fix k assume "k < length ps"
    with Cons.prems [of "Suc k"] show "\<not> prefix sub (drop k (ps @ sub @ post))" by simp
  qed
  with n show ?case by simp
qed

lemma find_at_absent: "\<not> py_in sub s \<Longrightarrow> find_at sub s i = - 1"
  by (induction s arbitrary: i) auto

lemma py_find_first:
  assumes "\<And>k. k < length pre \<Longrightarrow> \<not> prefix sub (drop k (pre @ sub @ post))"
  shows "py_find (pre @ sub @ post) sub = int (length pre)"
  using find_at_first [of pre sub post 0] assms by (simp add: py_find_def py_find_from_def)

lemma py_find_from_first:
  assumes "\<And>k. k < length mid \<Longrightarrow> \<not> prefix sub (drop k (mid @ sub @ post))"
  shows "py_find_from (pre @ mid @ sub @ post) sub (int (length pre)) = int (length pre + length mid)"
  using find_at_first [of mid sub post "length pre"] assms by (simp add: py_find_from_def)

lemma py_find_from_absent:
  "0 \<le> start \<Longrightarrow> \<not> py_in sub (drop (nat start) s) \<Longrightarrow> py_find_from s sub start = - 1"
  by (simp add: py_find_from_def find_at_absent Let_def)

lemma py_slice_between:
  "py_slice (pre @ mid @ post) (int (length pre)) (int (length pre + length mid)) = mid"
  by (simp add: py_slice_def adjust_index_def Let_def nat_add_distrib)

lemma adjust_index_minus_one: "adjust_index n (- 1) = n - 1"
  by (simp add: adjust_index_def nat_diff_distrib')

lemma py_slice_to_minus_one:
  assumes "0 \<le> start"
  shows "py_slice s start (- 1) = butlast (drop (nat start) s)"
proof -
  define lo where "lo = min (nat start) (length s)"
  have lo: "adjust_index (length s) start = lo"
    using assms by (simp add: adjust_index_def lo_def)
  have b: "butlast (drop (nat start) s) = take (length s - nat start - 1) (drop (nat start) s)"
    by (simp add: butlast_conv_take)
  show ?thesis
  proof (cases "lo < length s - 1")
    case True
    then have "lo = nat start" by (simp add: lo_def min_def split: if_splits)
    with True show ?thesis
      by (simp add: py_slice_def lo adjust_index_minus_one b Let_def)
  next
    case False
    then have "length s - nat start - 1 = 0" by (simp add: lo_def min_def split: if_splits)
    with False show ?thesis
      by (simp add: py_slice_def lo adjust_index_minus_one b Let_def)
  qed
qed

lemma py_in_append: "py_in sub (pre @ sub @ post)"
  by (simp add: py_in_iff_sublist)

lemma py_in_fence: "py_in ''```json'' s \<Longrightarrow> py_in ''```'' s"
proof -
  assume "py_in ''```json'' s"
  then have "sublist (''```'' @ ''json'') s" by (simp add: py_in_iff_sublist)
  then obtain ps ss where "s = ps @ (''```'' @ ''json'') @ ss" unfolding sublist_def by blast
  then have "s = ps @ ''```'' @ (''json'' @ ss)" by simp
  then have "sublist ''```'' s" unfolding sublist_def by blast
  then show ?thesis by (simp add: py_in_iff_sublist)
qed


lemma parse_json_response_candidate_only:
  "parse_json_response E content =
     (case json_loads E (extract_candidate content) of
        None \<Rightarrow> Inl JSONDecodeError
      | Some v \<Rightarrow> Inr v)"
  by (simp add: parse_json_response_def Let_def split: option.split)

lemma extract_candidate_json_fence:
  assumes c: "content = pre @ ''```json'' @ mid @ ''```'' @ post"
    and first: "\<And>k. k < length pre \<Longrightarrow> \<not> prefix ''```json'' (drop k content)"
    and closing: "\<And>k. k < length mid \<Longrightarrow> \<not> prefix ''```'' (drop k (mid @ ''```'' @ post))"
  shows "extract_candidate content = py_strip mid"
proof -
  have i: "py_in ''```json'' content"
    unfolding c by (rule py_in_append)
  have s: "py_find content ''```json'' + 7 = int (length (pre @ ''```json''))"
    using py_find_first [of pre "''```json''" "mid @ ''```'' @ post"] first c by simp
  have e: "py_find_from content ''```'' (int (length (pre @ ''```json'')))
           = int (length (pre @ ''```json'') + length mid)"
    using py_find_from_first [of mid "''```''" post "pre @ ''```json''"] closing c by simp
  have "py_slice content (int (length (pre @ ''```json'')))
          (int (length (pre @ ''```json'') + length mid)) = mid"
    using py_slice_between [of "pre @ ''```json''" mid "''```'' @ post"] c by simp
  with i s e show ?thesis
    by (simp add: extract_candidate_def Let_def ac_simps)
qed

lemma extract_candidate_plain_fence:
  assumes n: "\<not> py_in ''```json'' content"
    and c: "content = pre @ ''```'' @ mid @ ''```'' @ post"
    and first: "\<And>k. k < length pre \<Longrightarrow> \<not> prefix ''```'' (drop k content)"
    and closing: "\<And>k. k < length mid \<Longrightarrow> \<not> prefix ''```'' (drop k (mid @ ''```'' @ post))"
  shows "extract_candidate content = py_strip mid"
proof -
  have i: "py_in ''```'' content"
    unfolding c by (rule py_in_append)
  have s: "py_find content ''```'' + 3 = int (length (pre @ ''```''))"
    using py_find_first [of pre "''```''" "mid @ ''```'' @ post"] first c by simp
  have e: "py_find_from content ''```'' (int (length (pre @ ''```'')))
           = int (length (pre @ ''```'') + length mid)"
    using py_find_from_first [of mid "''```''" post "pre @ ''```''"] closing c by simp
  have "py_slice content (int (length (pre @ ''```'')))
          (int (length (pre @ ''```'') + length mid)) = mid"
    using py_slice_between [of "pre @ ''```''" mid "''```'' @ post"] c by simp
  with n i s e show ?thesis
    by (simp add: extract_candidate_def Let_def ac_simps)
qed

lemma extract_candidate_no_fence:
  "\<not> py_in ''```'' content \<Longrightarrow> extract_candidate content = content"
  using py_in_fence [of content] by (auto simp: extract_candidate_def)

lemma candidate_example_tagged:
  "extract_candidate ''```json\<newline>{\"a\":1}\<newline>```'' = ''{\"a\":1}''"
  by code_simp

lemma candidate_example_prose:
  "extract_candidate ''here is the result: ```\<newline>{\"a\":1}\<newline>``` thanks'' = ''{\"a\":1}''"
  by code_simp

lemma candidate_example_raw: "extract_candidate ''{\"a\":1}'' = ''{\"a\":1}''"
  by code_simp

lemma candidate_example_text: "extract_candidate ''not json at all'' = ''not json at all''"
  by code_simp

text \<open>
  Claim C6. When the text holds a JSON-tagged fence marker, first at the end of \<open>pre\<close>,
  and the next fence marker after it comes after \<open>mid\<close>, the candidate is \<open>mid\<close>,
  stripped. When it holds no JSON-tagged marker but a first fence marker and a next one,
  the candidate is what stands between the two, stripped. When it holds no fence marker,
  the candidate is the text. On the three example texts of the specification that carry
  \<^verbatim>\<open>{"a":1}\<close> the parser returns what \<^verbatim>\<open>json.loads\<close> makes of
  \<^verbatim>\<open>{"a":1}\<close>, and on \<^verbatim>\<open>not json at all\<close> it raises the decode error.
\<close>

theorem response_parser_extraction:
  "(content = pre @ ''```json'' @ mid @ ''```'' @ post
      \<and> (\<forall>k < length pre. \<not> prefix ''```json'' (drop k content))
      \<and> (\<forall>k < length mid. \<not> prefix ''```'' (drop k (mid @ ''```'' @ post)))
      \<longrightarrow> extract_candidate content = py_strip mid)
   \<and> (\<not> py_in ''```json'' content
      \<and> content = pre @ ''```'' @ mid @ ''```'' @ post
      \<and> (\<forall>k < length pre. \<not> prefix ''```'' (drop k content))
      \<and> (\<forall>k < length mid. \<not> prefix ''```'' (drop k (mid @ ''```'' @ post)))
      \<longrightarrow> extract_candidate content = py_strip mid)
   \<and> (\<not> py_in ''```'' content \<longrightarrow> extract_candidate content = content)
   \<and> (json_loads E ''{\"a\":1}'' = Some (JObj [(''a'', JInt 1)]) \<longrightarrow>
        parse_json_response E ''```json\<newline>{\"a\":1}\<newline>```'' = Inr (JObj [(''a'', JInt 1)])
        \<and> parse_json_response E ''here is the result: ```\<newline>{\"a\":1}\<newline>``` thanks''
            = Inr (JObj [(''a'', JInt 1)])
        \<and> parse_json_response E ''{\"a\":1}'' = Inr (JObj [(''a'', JInt 1)]))
   \<and> (json_loads E ''not json at all'' = None \<longrightarrow>
        parse_json_response E ''not json at all'' = Inl JSONDecodeError)"
proof -
  have a: "extract_candidate content = py_strip mid"
    if "content = pre @ ''```json'' @ mid @ ''```'' @ post"
      "\<forall>k < length pre. \<not> prefix ''```json'' (drop k content)"
      "\<forall>k < length mid. \<not> prefix ''```'' (drop k (mid @ ''```'' @ post))"
    using that by (intro extract_candidate_json_fence [of content pre mid post]) blast+
  have b: "extract_candidate content = py_strip mid"
    if "\<not> py_in ''```json'' content" "content = pre @ ''```'' @ mid @ ''```'' @ post"
      "\<forall>k < length pre. \<not> prefix ''```'' (drop k content)"
      "\<forall>k < length mid. \<not> prefix ''```'' (drop k (mid @ ''```'' @ post))"
    using that by (intro extract_candidate_plain_fence [of content pre mid post]) blast+
  have c: "\<not> py_in ''```'' content \<longrightarrow> extract_candidate content = content"
    by (simp add: extract_candidate_no_fence)
  have d: "json_loads E ''{\"a\":1}'' = Some (JObj [(''a'', JInt 1)]) \<longrightarrow>
        parse_json_response E ''```json\<newline>{\"a\":1}\<newline>```'' = Inr (JObj [(''a'', JInt 1)])
        \<and> parse_json_response E ''here is the result: ```\<newline>{\"a\":1}\<newline>``` thanks''
            = Inr (JObj [(''a'', JInt 1)])
        \<and> parse_json_response E ''{\"a\":1}'' = Inr (JObj [(''a'', JInt 1)])"
    by (simp only: parse_json_response_candidate_only candidate_example_tagged
          candidate_example_prose candidate_example_raw) simp
  have e: "json_loads E ''not json at all'' = None \<longrightarrow>
        parse_json_response E ''not json at all'' = Inl JSONDecodeError"
    by (simp only: parse_json_response_candidate_only candidate_example_text) simp
  from a b c d e show ?thesis by blast
qed


lemma no_occurrence_before:
  "list_all (\<lambda>k. \<not> prefix sub (drop k s)) [0..<n] \<Longrightarrow> \<forall>k<n. \<not> prefix sub (drop k s)"
  by (simp add: list_all_iff)

theorem response_parser_extraction_witness:
  "json_loads demo_env ''{\"a\":1}'' = Some (JObj [(''a'', JInt 1)])
   \<and> json_loads demo_env ''not json at all'' = None
   \<and> parse_json_response demo_env ''```json\<newline>{\"a\":1}\<newline>```'' = Inr (JObj [(''a'', JInt 1)])
   \<and> parse_json_response demo_env ''here is the result: ```\<newline>{\"a\":1}\<newline>``` thanks''
       = Inr (JObj [(''a'', JInt 1)])
   \<and> parse_json_response demo_env ''{\"a\":1}'' = Inr (JObj [(''a'', JInt 1)])
   \<and> parse_json_response demo_env ''not json at all'' = Inl JSONDecodeError
   \<and> extract_candidate (''ok: '' @ ''```json'' @ '' [1] '' @ ''```'' @ '' bye'') = py_strip '' [1] ''
   \<and> \<not> py_in ''```json'' (''ok: '' @ ''```'' @ '' [2] '' @ ''```'' @ '' bye'')
   \<and> extract_candidate (''ok: '' @ ''```'' @ '' [2] '' @ ''```'' @ '' bye'') = py_strip '' [2] ''
   \<and> \<not> py_in ''```'' ''[3]''
   \<and> extract_candidate ''[3]'' = ''[3]''"
proof -
  have l1: "json_loads demo_env ''{\"a\":1}'' = Some (JObj [(''a'', JInt 1)])"
    by code_simp
  have l2: "json_loads demo_env ''not json at all'' = None"
    by code_simp
  have p1: "\<forall>k<length ''ok: ''. \<not> prefix ''```json''
             (drop k (''ok: '' @ ''```json'' @ '' [1] '' @ ''```'' @ '' bye''))"
    by (rule no_occurrence_before) code_simp
  have m1: "\<forall>k<length '' [1] ''. \<not> prefix ''```'' (drop k ('' [1] '' @ ''```'' @ '' bye''))"
    by (rule no_occurrence_before) code_simp
  have n2: "\<not> py_in ''```json'' (''ok: '' @ ''```'' @ '' [2] '' @ ''```'' @ '' bye'')"
    by code_simp
  have p2: "\<forall>k<length ''ok: ''. \<not> prefix ''```''
             (drop k (''ok: '' @ ''```'' @ '' [2] '' @ ''```'' @ '' bye''))"
    by (rule no_occurrence_before) code_simp
  have m2: "\<forall>k<length '' [2] ''. \<not> prefix ''```'' (drop k ('' [2] '' @ ''```'' @ '' bye''))"
    by (rule no_occurrence_before) code_simp
  have n3: "\<not> py_in ''```'' ''[3]''"
    by code_simp
  from response_parser_extraction
         [of "''ok: '' @ ''```json'' @ '' [1] '' @ ''```'' @ '' bye''" "''ok: ''" "'' [1] ''"
             "'' bye''" demo_env] p1 m1 l1 l2
  have a: "extract_candidate (''ok: '' @ ''```json'' @ '' [1] '' @ ''```'' @ '' bye'')
             = py_strip '' [1] ''
           \<and> parse_json_response demo_env ''```json\<newline>{\"a\":1}\<newline>```''
             = Inr (JObj [(''a'', JInt 1)])
           \<and> parse_json_response demo_env
                ''here is the result: ```\<newline>{\"a\":1}\<newline>``` thanks''
             = Inr (JObj [(''a'', JInt 1)])
           \<and> parse_json_response demo_env ''{\"a\":1}'' = Inr (JObj [(''a'', JInt 1)])
           \<and> parse_json_response demo_env ''not json at all'' = Inl JSONDecodeError"
    by blast
  from response_parser_extraction
         [of "''ok: '' @ ''```'' @ '' [2] '' @ ''```'' @ '' bye''" "''ok: ''" "'' [2] ''"
             "'' bye''" demo_env] n2 p2 m2
  have b: "extract_candidate (''ok: '' @ ''```'' @ '' [2] '' @ ''```'' @ '' bye'')
             = py_strip '' [2] ''"
    by blast
  from response_parser_extraction [of "''[3]''" "[]" "[]" "[]" demo_env] n3
  have c: "extract_candidate ''[3]'' = ''[3]''"
    by blast
  from l1 l2 a b c n2 n3 show ?thesis by blast
qed

text \<open>
  Claim C10. When the text holds an opening fence marker (JSON-tagged, or plain when no
  JSON-tagged one occurs) and no fence marker after it, the search for the closing marker
  yields \<open>-1\<close> and the candidate is the text after the opening marker without its last
  character, stripped. So \<^verbatim>\<open>```json{"a":1}\<close> raises the decode error as soon
  as \<^verbatim>\<open>{"a":1\<close> is no JSON.
\<close>

theorem unclosed_fence_drops_last_character:
  "(content = pre @ ''```json'' @ rest
      \<and> (\<forall>k < length pre. \<not> prefix ''```json'' (drop k content))
      \<and> \<not> py_in ''```'' rest
      \<longrightarrow> py_find_from content ''```'' (py_find content ''```json'' + 7) = - 1
          \<and> extract_candidate content = py_strip (butlast rest))
   \<and> (\<not> py_in ''```json'' content
      \<and> content = pre @ ''```'' @ rest
      \<and> (\<forall>k < length pre. \<not> prefix ''```'' (drop k content))
      \<and> \<not> py_in ''```'' rest
      \<longrightarrow> py_find_from content ''```'' (py_find content ''```'' + 3) = - 1
          \<and> extract_candidate content = py_strip (butlast rest))
   \<and> (json_loads E ''{\"a\":1'' = None
      \<longrightarrow> parse_json_response E ''```json{\"a\":1}'' = Inl JSONDecodeError)"
proof -
  have a: "py_find_from content ''```'' (py_find content ''```json'' + 7) = - 1
          \<and> extract_candidate content = py_strip (butlast rest)"
    if c: "content = pre @ ''```json'' @ rest"
      and first: "\<forall>k < length pre. \<not> prefix ''```json'' (drop k content)"
      and r: "\<not> py_in ''```'' rest"
  proof -
    have i: "py_in ''```json'' content"
      unfolding c by (rule py_in_append)
    have s: "py_find content ''```json'' = int (length pre)"
      using py_find_first [of pre "''```json''" rest] first c by simp
    have d: "drop (nat (int (length pre) + 7)) content = rest"
      by (simp add: c nat_add_distrib)
    have e: "py_find_from content ''```'' (int (length pre) + 7) = - 1"
      using r d py_find_from_absent [of "int (length pre) + 7" "''```''" content] by simp
    have "py_slice content (int (length pre) + 7) (- 1) = butlast rest"
      using d py_slice_to_minus_one [of "int (length pre) + 7" content] by simp
    with i s e show ?thesis
      by (simp add: extract_candidate_def Let_def)
  qed
  have b: "py_find_from content ''```'' (py_find content ''```'' + 3) = - 1
          \<and> extract_candidate content = py_strip (butlast rest)"
    if n: "\<not> py_in ''```json'' content"
      and c: "content = pre @ ''```'' @ rest"
      and first: "\<forall>k < length pre. \<not> prefix ''```'' (drop k content)"
      and r: "\<not> py_in ''```'' rest"
  proof -
    have i: "py_in ''```'' content"
      unfolding c by (rule py_in_append)
    have s: "py_find content ''```'' = int (length pre)"
      using py_find_first [of pre "''```''" rest] first c by simp
    have d: "drop (nat (int (length pre) + 3)) content = rest"
      by (simp add: c nat_add_distrib)
    have e: "py_find_from content ''```'' (int (length pre) + 3) = - 1"
      using r d py_find_from_absent [of "int (length pre) + 3" "''```''" content] by simp
    have "py_slice content (int (length pre) + 3) (- 1) = butlast rest"
      using d py_slice_to_minus_one [of "int (length pre) + 3" content] by simp
    with n i s e show ?thesis
      by (simp add: extract_candidate_def Let_def)
  qed
  have x: "extract_candidate ''```json{\"a\":1}'' = ''{\"a\":1''"
    by code_simp
  have c: "json_loads E ''{\"a\":1'' = None
      \<longrightarrow> parse_json_response E ''```json{\"a\":1}'' = Inl JSONDecodeError"
    by (simp only: parse_json_response_candidate_only x) simp
  from a b c show ?thesis by blast
qed

theorem unclosed_fence_drops_last_character_witness:
  "json_loads demo_env ''{\"a\":1}'' = Some (JObj [(''a'', JInt 1)])
   \<and> json_loads demo_env ''{\"a\":1'' = None
   \<and> parse_json_response demo_env ''```json{\"a\":1}'' = Inl JSONDecodeError
   \<and> \<not> py_in ''```'' ''{\"a\":1}''
   \<and> py_find_from (''```json'' @ ''{\"a\":1}'') ''```''
         (py_find (''```json'' @ ''{\"a\":1}'') ''```json'' + 7) = - 1
   \<and> extract_candidate (''```json'' @ ''{\"a\":1}'') = py_strip (butlast ''{\"a\":1}'')
   \<and> \<not> py_in ''```json'' (''see '' @ ''```'' @ ''[1]'')
   \<and> \<not> py_in ''```'' ''[1]''
   \<and> extract_candidate (''see '' @ ''```'' @ ''[1]'') = py_strip (butlast ''[1]'')"
proof -
  have l1: "json_loads demo_env ''{\"a\":1}'' = Some (JObj [(''a'', JInt 1)])"
    by code_simp
  have l2: "json_loads demo_env ''{\"a\":1'' = None"
    by code_simp
  have r1: "\<not> py_in ''```'' ''{\"a\":1}''"
    by code_simp
  have n2: "\<not> py_in ''```json'' (''see '' @ ''```'' @ ''[1]'')"
    by code_simp
  have p2: "\<forall>k<length ''see ''. \<not> prefix ''```'' (drop k (''see '' @ ''```'' @ ''[1]''))"
    by (rule no_occurrence_before) code_simp
  have r2: "\<not> py_in ''```'' ''[1]''"
    by code_simp
  from unclosed_fence_drops_last_character
         [of "''```json'' @ ''{\"a\":1}''" "[]" "''{\"a\":1}''" demo_env] r1 l2
  have a: "py_find_from (''```json'' @ ''{\"a\":1}'') ''```''
             (py_find (''```json'' @ ''{\"a\":1}'') ''```json'' + 7) = - 1
           \<and> extract_candidate (''```json'' @ ''{\"a\":1}'') = py_strip (butlast ''{\"a\":1}'')
           \<and> parse_json_response demo_env ''```json{\"a\":1}'' = Inl JSONDecodeError"
    by simp
  from unclosed_fence_drops_last_character
         [of "''see '' @ ''```'' @ ''[1]''" "''see ''" "''[1]''" demo_env] n2 p2 r2
  have b: "extract_candidate (''see '' @ ''```'' @ ''[1]'') = py_strip (butlast ''[1]'')"
    by blast
  from l1 l2 r1 n2 r2 a b show ?thesis by blast
qed

text \<open>
  Claim C3 says that the handler parses the full original text when the candidate is no
  JSON. The text \<^verbatim>\<open>{"a":"```"}\<close> is JSON as a whole; its candidate is a lone
  double quote, which is not. The handler parses the candidate again
  (\<open>parse_json_response_candidate_only\<close>) and the decode error is raised.
\<close>

theorem fallback_parses_the_sliced_text:
  "json_loads demo_env ''{\"a\":\"```\"}'' = Some (JObj [(''a'', JStr ''```'')])
   \<and> extract_candidate ''{\"a\":\"```\"}'' = [CHR 0x22]
   \<and> json_loads demo_env [CHR 0x22] = None
   \<and> parse_json_response demo_env ''{\"a\":\"```\"}'' = Inl JSONDecodeError"
  by code_simp

section \<open>The batch handler, one loop at a time\<close>

lemma merge_properties_keeps_keys:
  "map_of r k \<noteq> None \<Longrightarrow> map_of (merge_properties r props) k \<noteq> None"
  by (simp add: map_of_merge_properties map_add_def split: option.split)

lemma fixed_fields_id:
  "map_of (fixed_fields rid key bucket ut pt fh sz ct pc) ''id'' = Some (JStr rid)"
  by (cases pc) (simp_all add: fixed_fields_def)

lemma add_extracted_id:
  "add_extracted (fixed_fields rid key bucket ut pt fh sz ct pc) x = Inr record \<Longrightarrow>
     map_of record ''id'' \<noteq> None"
proof -
  assume a: "add_extracted (fixed_fields rid key bucket ut pt fh sz ct pc) x = Inr record"
  then obtain props where "x = JObj props" by (cases x) simp_all
  with a have "record = merge_properties (fixed_fields rid key bucket ut pt fh sz ct pc) props"
    by simp
  then show ?thesis
    by (simp add: merge_properties_keeps_keys fixed_fields_id)
qed

lemma process_document_id:
  assumes "process_document E bucket key upload_time w = (Inr stored, w')"
  shows "map_of stored ''id'' \<noteq> None"
  using assms
  unfolding process_document_def Let_def
  by (auto split: sum.splits prod.splits simp: store_record_def split: option.splits
           dest: add_extracted_id)

lemma process_document_effect:
  assumes "process_document E bucket key upload_time w = (r, w')"
  shows "s3_calls w' = Suc (s3_calls w)
     \<and> (case r of
           Inr stored \<Rightarrow>
             table_items w' = table_items w @ [stored] \<and> put_calls w' = Suc (put_calls w)
         | Inl e \<Rightarrow>
             table_items w' = table_items w
             \<and> (put_calls w' = put_calls w
                \<or> (\<exists>c. e = Exception ''Failed to store record in DynamoDB'' c)
                  \<and> put_calls w' = Suc (put_calls w)))"
  using assms
  unfolding process_document_def Let_def
  by (auto split: sum.splits prod.splits
           dest!: load_schema_frame load_prompt_template_frame invoke_bedrock_frame
                  store_record_writes)

lemma document_entries_stored:
  assumes "process_document E b k t w = (res, w1)"
  shows "length (table_items w1) = length (table_items w) + length (fst (document_entries k res))"
proof (cases res)
  case (Inl e)
  with process_document_effect [OF assms] show ?thesis
    by (simp add: document_entries_def)
next
  case (Inr stored)
  with process_document_effect [OF assms]
  have "table_items w1 = table_items w @ [stored]"
    by simp
  moreover from assms Inr have "map_of stored ''id'' \<noteq> None"
    by (intro process_document_id [of E b k t w stored w1]) simp
  ultimately show ?thesis using Inr
    by (auto simp: document_entries_def)
qed

lemma process_s3_records_step:
  assumes "s3_fields E r = Inr (b, k, t)" and "process_document E b k t w = (res, w1)"
  shows "process_s3_records E (r # rest) (rs, es, w)
           = process_s3_records E rest
               (rs @ fst (document_entries k res), es @ snd (document_entries k res), w1)"
  using assms by (simp add: document_entries_def split: sum.splits)

lemma document_entries_keys:
  "map r_document (fst (document_entries k res)) @ error_keys (snd (document_entries k res)) = [k]"
  by (simp add: document_entries_def error_keys_def split: sum.splits)

lemma document_entries_status:
  "(\<forall>x\<in>set (fst (document_entries k res)). r_status x = ''success'')
   \<and> (\<forall>x\<in>set (snd (document_entries k res)). e_status x = ''error'' \<and> e_document x \<noteq> None)"
  by (simp add: document_entries_def split: sum.splits)

lemma keys_of_records_Cons_ok:
  "s3_fields E r = Inr (b, k, t) \<Longrightarrow> keys_of_records E (r # recs) = k # keys_of_records E recs"
  by (simp add: keys_of_records_def)

lemma error_keys_append: "error_keys (xs @ ys) = error_keys xs @ error_keys ys"
  by (simp add: error_keys_def)

lemma process_s3_records_outcome:
  "process_s3_records E recs (rs, es, w) = (x, rs', es', w') \<Longrightarrow>
     \<exists>nrs nes. rs' = rs @ nrs \<and> es' = es @ nes
       \<and> mset (map r_document nrs @ error_keys nes)
           = mset (keys_of_records E (takeWhile (record_ok E) recs))
       \<and> (\<forall>r\<in>set nrs. r_status r = ''success'')
       \<and> (\<forall>e\<in>set nes. e_status e = ''error'' \<and> e_document e \<noteq> None)
       \<and> s3_calls w' = s3_calls w + length (takeWhile (record_ok E) recs)
       \<and> length (table_items w') = length (table_items w) + length nrs
       \<and> (x = None \<longleftrightarrow> list_all (record_ok E) recs)"
proof (induction recs arbitrary: rs es w)
  case Nil
  then show ?case by (simp add: keys_of_records_def error_keys_def)
next
  case (Cons r recs)
  show ?case
  proof (cases "s3_fields E r")
    case (Inl e)
    with Cons.prems have "x = Some e" "rs' = rs" "es' = es" "w' = w" by simp_all
    moreover from Inl have "\<not> record_ok E r" by (simp add: record_ok_def)
    ultimately show ?thesis
      by (intro exI [of _ "[]"]) (simp add: keys_of_records_def error_keys_def)
  next
    case (Inr f)
    obtain b k t where f: "s3_fields E r = Inr (b, k, t)" using Inr by (cases f) auto
    then have ok: "record_ok E r" by (simp add: record_ok_def)
    obtain res w1 where p: "process_document E b k t w = (res, w1)"
      by (cases "process_document E b k t w")
    define nr where "nr = fst (document_entries k res)"
    define ne where "ne = snd (document_entries k res)"
    have step: "process_s3_records E (r # recs) (rs, es, w)
               = process_s3_records E recs (rs @ nr, es @ ne, w1)"
      unfolding nr_def ne_def by (rule process_s3_records_step [OF f p])
    have keys: "map r_document nr @ error_keys ne = [k]"
      unfolding nr_def ne_def by (rule document_entries_keys)
    have st: "\<forall>x\<in>set nr. r_status x = ''success''"
              "\<forall>x\<in>set ne. e_status x = ''error'' \<and> e_document x \<noteq> None"
      unfolding nr_def ne_def using document_entries_status [of k res] by blast+
    from step Cons.prems
    have "process_s3_records E recs (rs @ nr, es @ ne, w1) = (x, rs', es', w')" by simp
    from Cons.IH [OF this] obtain nrs nes where
      ih: "rs' = (rs @ nr) @ nrs" "es' = (es @ ne) @ nes"
        "mset (map r_document nrs @ error_keys nes)
           = mset (keys_of_records E (takeWhile (record_ok E) recs))"
        "\<forall>r\<in>set nrs. r_status r = ''success''"
        "\<forall>e\<in>set nes. e_status e = ''error'' \<and> e_document e \<noteq> None"
        "s3_calls w' = s3_calls w1 + length (takeWhile (record_ok E) recs)"
        "x = None \<longleftrightarrow> list_all (record_ok E) recs"
        "length (table_items w') = length (table_items w1) + length nrs"
      by blast
    have k: "mset (map r_document (nr @ nrs) @ error_keys (ne @ nes))
             = mset (keys_of_records E (takeWhile (record_ok E) (r # recs)))"
    proof -
      have "mset (map r_document (nr @ nrs) @ error_keys (ne @ nes))
            = mset (map r_document nr @ error_keys ne) + mset (map r_document nrs @ error_keys nes)"
        by (simp add: error_keys_append)
      also have "\<dots> = mset [k] + mset (keys_of_records E (takeWhile (record_ok E) recs))"
        by (simp only: keys ih(3))
      finally show ?thesis using ok f by (simp add: keys_of_records_Cons_ok)
    qed
    have c: "s3_calls w' = s3_calls w + length (takeWhile (record_ok E) (r # recs))"
      using ih(6) process_document_effect [OF p] ok by simp
    show ?thesis
    proof (intro exI conjI)
      show "rs' = rs @ (nr @ nrs)" using ih(1) by simp
      show "es' = es @ (ne @ nes)" using ih(2) by simp
      show "mset (map r_document (nr @ nrs) @ error_keys (ne @ nes))
             = mset (keys_of_records E (takeWhile (record_ok E) (r # recs)))"
        by (rule k)
      show "\<forall>r\<in>set (nr @ nrs). r_status r = ''success''"
        using st(1) ih(4) by auto
      show "\<forall>e\<in>set (ne @ nes). e_status e = ''error'' \<and> e_document e \<noteq> None"
        using st(2) ih(5) by auto
      show "s3_calls w' = s3_calls w + length (takeWhile (record_ok E) (r # recs))"
        by (rule c)
      show "length (table_items w') = length (table_items w) + length (nr @ nrs)"
        using ih(8) document_entries_stored [OF p] by (simp add: nr_def)
      show "x = None \<longleftrightarrow> list_all (record_ok E) (r # recs)"
        using ih(7) ok by simp
    qed
  qed
qed

lemma process_s3_records_append:
  "process_s3_records E (pre @ recs) (rs, es, w) =
     (case process_s3_records E pre (rs, es, w) of
        (None, acc) \<Rightarrow> process_s3_records E recs acc
      | (Some e, acc) \<Rightarrow> (Some e, acc))"
proof (induction pre arbitrary: rs es w)
  case Nil
  then show ?case by simp
next
  case (Cons r pre)
  show ?case
  proof (cases "s3_fields E r")
    case (Inl e)
    then show ?thesis by simp
  next
    case (Inr f)
    obtain b k t where f: "s3_fields E r = Inr (b, k, t)" using Inr by (cases f) auto
    obtain res w1 where p: "process_document E b k t w = (res, w1)"
      by (cases "process_document E b k t w")
    show ?thesis
      by (simp only: append_Cons process_s3_records_step [OF f p] Cons.IH)
  qed
qed


lemma length_keys_of_records:
  "list_all (record_ok E) recs \<Longrightarrow> length (keys_of_records E recs) = length recs"
  by (induction recs) (auto simp: keys_of_records_def record_ok_def split: sum.splits)

lemma length_keys_of_reached:
  "length (keys_of_records E (takeWhile (record_ok E) recs)) = length (takeWhile (record_ok E) recs)"
  by (rule length_keys_of_records) (auto simp: list_all_iff dest: set_takeWhileD)

lemma no_document_none: "\<forall>e\<in>set nes. e_document e \<noteq> None \<Longrightarrow> filter (\<lambda>e. e_document e = None) nes = []"
  by (induction nes) auto

lemma process_sqs_records_step:
  "\<exists>nrs nes w1.
     process_sqs_records E (sqs # rest) (rs, es, w)
       = process_sqs_records E rest (rs @ nrs, es @ nes, w1)
     \<and> mset (map r_document nrs @ error_keys nes) = mset (reached_keys E sqs)
     \<and> length (filter (\<lambda>e. e_document e = None) nes) = (if envelope_failed E sqs then 1 else 0)
     \<and> (\<forall>r\<in>set nrs. r_status r = ''success'')
     \<and> (\<forall>e\<in>set nes. e_status e = ''error'')
     \<and> s3_calls w1 = s3_calls w + length (reached_keys E sqs)
     \<and> length (table_items w1) = length (table_items w) + length nrs"
proof (cases "envelope_records E sqs")
  case (Inl e)
  then have "process_sqs_records E (sqs # rest) (rs, es, w)
       = process_sqs_records E rest (rs @ [], es @ [ErrorEntry ''error'' None e], w)"
    by simp
  with Inl show ?thesis
    by (intro exI [of _ "[]"] exI [of _ "[ErrorEntry ''error'' None e]"] exI [of _ w])
       (simp add: reached_keys_def envelope_failed_def error_keys_def)
next
  case (Inr recs)
  obtain x rs1 es1 w1 where p: "process_s3_records E recs (rs, es, w) = (x, rs1, es1, w1)"
    by (cases "process_s3_records E recs (rs, es, w)")
  from process_s3_records_outcome [OF p] obtain nrs nes where
    o: "rs1 = rs @ nrs" "es1 = es @ nes"
      "mset (map r_document nrs @ error_keys nes)
         = mset (keys_of_records E (takeWhile (record_ok E) recs))"
      "\<forall>r\<in>set nrs. r_status r = ''success''"
      "\<forall>e\<in>set nes. e_status e = ''error'' \<and> e_document e \<noteq> None"
      "s3_calls w1 = s3_calls w + length (takeWhile (record_ok E) recs)"
      "x = None \<longleftrightarrow> list_all (record_ok E) recs"
      "length (table_items w1) = length (table_items w) + length nrs"
    by blast
  from o(5) have nd: "filter (\<lambda>e. e_document e = None) nes = []"
    by (intro no_document_none) blast
  have rk: "reached_keys E sqs = keys_of_records E (takeWhile (record_ok E) recs)"
    using Inr by (simp add: reached_keys_def)
  have c: "s3_calls w1 = s3_calls w + length (reached_keys E sqs)"
    using o(6) by (simp add: rk length_keys_of_reached)
  show ?thesis
  proof (cases x)
    case None
    with Inr p o(1,2) have "process_sqs_records E (sqs # rest) (rs, es, w)
       = process_sqs_records E rest (rs @ nrs, es @ nes, w1)"
      by simp
    moreover from None o(7) Inr have "\<not> envelope_failed E sqs"
      by (simp add: envelope_failed_def)
    ultimately show ?thesis
      using o(3,4,5,8) nd c rk
      by (intro exI [of _ nrs] exI [of _ nes] exI [of _ w1]) simp
  next
    case (Some e)
    with Inr p o(1,2) have "process_sqs_records E (sqs # rest) (rs, es, w)
       = process_sqs_records E rest (rs @ nrs, es @ (nes @ [ErrorEntry ''error'' None e]), w1)"
      by simp
    moreover from Some o(7) Inr have "envelope_failed E sqs"
      by (simp add: envelope_failed_def)
    ultimately show ?thesis
      using o(3,4,5,8) nd c rk
      by (intro exI [of _ nrs] exI [of _ "nes @ [ErrorEntry ''error'' None e]"] exI [of _ w1])
         (simp add: error_keys_def)
  qed
qed

lemma process_sqs_records_outcome:
  "process_sqs_records E sqss (rs, es, w) = (rs', es', w') \<Longrightarrow>
     \<exists>nrs nes. rs' = rs @ nrs \<and> es' = es @ nes
       \<and> mset (map r_document nrs @ error_keys nes) = mset (concat (map (reached_keys E) sqss))
       \<and> length (filter (\<lambda>e. e_document e = None) nes) = length (filter (envelope_failed E) sqss)
       \<and> (\<forall>r\<in>set nrs. r_status r = ''success'')
       \<and> (\<forall>e\<in>set nes. e_status e = ''error'')
       \<and> s3_calls w' = s3_calls w + length (concat (map (reached_keys E) sqss))
       \<and> length (table_items w') = length (table_items w) + length nrs"
proof (induction sqss arbitrary: rs es w)
  case Nil
  then show ?case by (simp add: error_keys_def)
next
  case (Cons sqs sqss)
  from process_sqs_records_step [of E sqs sqss rs es w] obtain nr ne w1 where
    s: "process_sqs_records E (sqs # sqss) (rs, es, w)
         = process_sqs_records E sqss (rs @ nr, es @ ne, w1)"
      "mset (map r_document nr @ error_keys ne) = mset (reached_keys E sqs)"
      "length (filter (\<lambda>e. e_document e = None) ne) = (if envelope_failed E sqs then 1 else 0)"
      "\<forall>r\<in>set nr. r_status r = ''success''"
      "\<forall>e\<in>set ne. e_status e = ''error''"
      "s3_calls w1 = s3_calls w + length (reached_keys E sqs)"
      "length (table_items w1) = length (table_items w) + length nr"
    by blast
  from s(1) Cons.prems
  have "process_sqs_records E sqss (rs @ nr, es @ ne, w1) = (rs', es', w')" by simp
  from Cons.IH [OF this] obtain nrs nes where
    ih: "rs' = (rs @ nr) @ nrs" "es' = (es @ ne) @ nes"
      "mset (map r_document nrs @ error_keys nes) = mset (concat (map (reached_keys E) sqss))"
      "length (filter (\<lambda>e. e_document e = None) nes) = length (filter (envelope_failed E) sqss)"
      "\<forall>r\<in>set nrs. r_status r = ''success''"
      "\<forall>e\<in>set nes. e_status e = ''error''"
      "s3_calls w' = s3_calls w1 + length (concat (map (reached_keys E) sqss))"
      "length (table_items w') = length (table_items w1) + length nrs"
    by blast
  have k: "mset (map r_document (nr @ nrs) @ error_keys (ne @ nes))
           = mset (concat (map (reached_keys E) (sqs # sqss)))"
  proof -
    have "mset (map r_document (nr @ nrs) @ error_keys (ne @ nes))
          = mset (map r_document nr @ error_keys ne) + mset (map r_document nrs @ error_keys nes)"
      by (simp add: error_keys_append)
    also have "\<dots> = mset (reached_keys E sqs) + mset (concat (map (reached_keys E) sqss))"
      by (simp only: s(2) ih(3))
    finally show ?thesis by simp
  qed
  show ?case
  proof (intro exI conjI)
    show "rs' = rs @ (nr @ nrs)" using ih(1) by simp
    show "es' = es @ (ne @ nes)" using ih(2) by simp
    show "mset (map r_document (nr @ nrs) @ error_keys (ne @ nes))
           = mset (concat (map (reached_keys E) (sqs # sqss)))"
      by (rule k)
    show "length (filter (\<lambda>e. e_document e = None) (ne @ nes))
           = length (filter (envelope_failed E) (sqs # sqss))"
      using s(3) ih(4) by simp
    show "\<forall>r\<in>set (nr @ nrs). r_status r = ''success''"
      using s(4) ih(5) by auto
    show "\<forall>e\<in>set (ne @ nes). e_status e = ''error''"
      using s(5) ih(6) by auto
    show "s3_calls w' = s3_calls w + length (concat (map (reached_keys E) (sqs # sqss)))"
      using s(6) ih(7) by simp
    show "length (table_items w') = length (table_items w) + length (nr @ nrs)"
      using s(7) ih(8) by simp
  qed
qed

lemma lambda_handler_outcome:
  assumes "subscript event ''Records'' = Inr v" and "py_iter v = Inr sqss"
    and "process_sqs_records E sqss ([], [], w) = (rs, es, w')"
  shows "lambda_handler E event w =
           (Inr \<lparr>statusCode = (if es = [] then 200 else 207),
                 body = \<lparr>processed = length rs, errors = length es,
                         results = rs, errors_detail = es\<rparr>\<rparr>, w')"
  using assms by (simp add: lambda_handler_def and_then_def)

lemma reached_keys_eq_notified:
  assumes "\<forall>recs. envelope_records E s = Inr recs \<longrightarrow> list_all (record_ok E) recs"
  shows "reached_keys E s = notified_keys E s"
proof (cases "envelope_records E s")
  case (Inl e)
  then show ?thesis by (simp add: reached_keys_def notified_keys_def)
next
  case (Inr recs)
  with assms have "list_all (record_ok E) recs" by simp
  then have "takeWhile (record_ok E) recs = recs"
    by (simp add: takeWhile_eq_all_conv list_all_iff)
  with Inr show ?thesis by (simp only: reached_keys_def notified_keys_def sum.case)
qed

lemma reached_keys_eq_notified_batch:
  assumes "\<forall>s\<in>set sqss. \<forall>recs. envelope_records E s = Inr recs \<longrightarrow> list_all (record_ok E) recs"
  shows "concat (map (reached_keys E) sqss) = concat (map (notified_keys E) sqss)"
proof -
  have "map (reached_keys E) sqss = map (notified_keys E) sqss"
    using assms by (intro map_cong refl reached_keys_eq_notified) blast
  then show ?thesis by (simp only:)
qed

section \<open>The batch result\<close>

text \<open>
  Claim C1, as the code has it. For every batch \<open>lambda_handler\<close> returns: the status
  code is 200 when the failure list is empty and 207 otherwise, \<open>processed\<close> and
  \<open>errors\<close> are the lengths of the two lists, every success entry stands for one record
  written, and the entries that carry a document key are, key for key, the document
  records reached, that is, those of every envelope that unwraps, up to its first
  malformed record; the failure entries without a key are as many as the envelopes that
  failed. When no envelope holds a malformed record, the keys described are those of all
  document notifications.
\<close>

theorem lambda_handler_reports_reached_documents:
  assumes "subscript event ''Records'' = Inr v" and "py_iter v = Inr sqss"
  shows "\<exists>resp w'. lambda_handler E event w = (Inr resp, w')
     \<and> statusCode resp = (if errors_detail (body resp) = [] then 200 else 207)
     \<and> processed (body resp) = length (results (body resp))
     \<and> errors (body resp) = length (errors_detail (body resp))
     \<and> (\<forall>r\<in>set (results (body resp)). r_status r = ''success'')
     \<and> (\<forall>e\<in>set (errors_detail (body resp)). e_status e = ''error'')
     \<and> length (table_items w') = length (table_items w) + processed (body resp)
     \<and> mset (described_keys (body resp)) = mset (concat (map (reached_keys E) sqss))
     \<and> length (filter (\<lambda>e. e_document e = None) (errors_detail (body resp)))
         = length (filter (envelope_failed E) sqss)
     \<and> ((\<forall>s\<in>set sqss. \<forall>recs. envelope_records E s = Inr recs \<longrightarrow> list_all (record_ok E) recs)
          \<longrightarrow> mset (described_keys (body resp)) = mset (concat (map (notified_keys E) sqss)))"
proof -
  obtain rs es w' where p: "process_sqs_records E sqss ([], [], w) = (rs, es, w')"
    by (cases "process_sqs_records E sqss ([], [], w)")
  define resp where "resp = \<lparr>statusCode = (if es = [] then 200 else 207),
                 body = \<lparr>processed = length rs, errors = length es,
                         results = rs, errors_detail = es\<rparr>\<rparr>"
  have l: "lambda_handler E event w = (Inr resp, w')"
    unfolding resp_def by (rule lambda_handler_outcome [OF assms p])
  from process_sqs_records_outcome [OF p] obtain nrs nes where
    o: "rs = [] @ nrs" "es = [] @ nes"
      "mset (map r_document nrs @ error_keys nes) = mset (concat (map (reached_keys E) sqss))"
      "length (filter (\<lambda>e. e_document e = None) nes) = length (filter (envelope_failed E) sqss)"
      "\<forall>r\<in>set nrs. r_status r = ''success''"
      "\<forall>e\<in>set nes. e_status e = ''error''"
      "s3_calls w' = s3_calls w + length (concat (map (reached_keys E) sqss))"
      "length (table_items w') = length (table_items w) + length nrs"
    by blast
  from o(1,2) have n: "nrs = rs" "nes = es" by simp_all
  have d: "mset (described_keys (body resp)) = mset (concat (map (reached_keys E) sqss))"
    using o(3) by (simp add: described_keys_def resp_def n)
  have "mset (described_keys (body resp)) = mset (concat (map (notified_keys E) sqss))"
    if "\<forall>s\<in>set sqss. \<forall>recs. envelope_records E s = Inr recs \<longrightarrow> list_all (record_ok E) recs"
    using d reached_keys_eq_notified_batch [OF that] by simp
  with l d o(4,5,6,8) show ?thesis
    by (intro exI [of _ resp] exI [of _ w']) (simp add: resp_def n)
qed

lemma demo_batch_handled:
  "fst (lambda_handler demo_env (batch_event demo_batch) world0) = Inr demo_batch_response"
  by code_simp

lemma demo_batch_envelopes:
  "envelope_records demo_env
     (sqs_record_of [s3_notification ''k1.pdf'', s3_notification ''missing.pdf'',
                     s3_notification ''k3.pdf''])
     = Inr [s3_record_of ''k1.pdf'', s3_record_of ''missing.pdf'', s3_record_of ''k3.pdf'']"
  "envelope_records demo_env (JObj [(''body'', JStr ''{not json'')]) = Inl JSONDecodeError"
  by code_simp+

lemma demo_record_fields:
  "s3_fields demo_env (s3_record_of ''k1.pdf'') = Inr (JStr ''b'', ''k1.pdf'', JStr ''t'')"
  "s3_fields demo_env (s3_record_of ''missing.pdf'') = Inr (JStr ''b'', ''missing.pdf'', JStr ''t'')"
  "s3_fields demo_env (s3_record_of ''k3.pdf'') = Inr (JStr ''b'', ''k3.pdf'', JStr ''t'')"
  by code_simp+

theorem lambda_handler_reports_reached_documents_witness:
  "subscript (batch_event demo_batch) ''Records'' = Inr (JArr demo_batch)
   \<and> py_iter (JArr demo_batch) = Inr demo_batch
   \<and> fst (lambda_handler demo_env (batch_event demo_batch) world0) = Inr demo_batch_response
   \<and> statusCode demo_batch_response = 207
   \<and> processed (body demo_batch_response) = 2
   \<and> errors (body demo_batch_response) = 2
   \<and> mset (described_keys (body demo_batch_response))
       = mset [''k1.pdf'', ''missing.pdf'', ''k3.pdf'']
   \<and> length (filter (envelope_failed demo_env) demo_batch) = 1"
proof -
  have h1: "subscript (batch_event demo_batch) ''Records'' = Inr (JArr demo_batch)"
    by (simp add: batch_event_def)
  have h2: "py_iter (JArr demo_batch) = Inr demo_batch"
    by simp
  have h3: "\<forall>s\<in>set demo_batch. \<forall>recs. envelope_records demo_env s = Inr recs
              \<longrightarrow> list_all (record_ok demo_env) recs"
    by (simp add: demo_batch_def demo_batch_envelopes record_ok_def demo_record_fields)
  have n: "concat (map (notified_keys demo_env) demo_batch) = [''k1.pdf'', ''missing.pdf'', ''k3.pdf'']"
    by (simp add: demo_batch_def notified_keys_def demo_batch_envelopes keys_of_records_def
          demo_record_fields)
  from lambda_handler_reports_reached_documents [OF h1 h2, of demo_env world0]
  obtain resp w' where
    r: "lambda_handler demo_env (batch_event demo_batch) world0 = (Inr resp, w')"
      "statusCode resp = (if errors_detail (body resp) = [] then 200 else 207)"
      "processed (body resp) = length (results (body resp))"
      "errors (body resp) = length (errors_detail (body resp))"
      "length (filter (\<lambda>e. e_document e = None) (errors_detail (body resp)))
         = length (filter (envelope_failed demo_env) demo_batch)"
      "(\<forall>s\<in>set demo_batch. \<forall>recs. envelope_records demo_env s = Inr recs
              \<longrightarrow> list_all (record_ok demo_env) recs)
          \<longrightarrow> mset (described_keys (body resp))
               = mset (concat (map (notified_keys demo_env) demo_batch))"
    by blast
  from r(1) demo_batch_handled have e: "resp = demo_batch_response" by simp
  from r(6) h3 n have "mset (described_keys (body demo_batch_response))
       = mset [''k1.pdf'', ''missing.pdf'', ''k3.pdf'']"
    by (simp only: e)
  moreover from r(2,3,4,5) have "statusCode demo_batch_response = 207"
    "processed (body demo_batch_response) = 2" "errors (body demo_batch_response) = 2"
    "length (filter (envelope_failed demo_env) demo_batch) = 1"
    unfolding e by (simp_all add: demo_batch_response_def)
  ultimately show ?thesis using h1 h2 demo_batch_handled by blast
qed


text \<open>
  Claim C1 as stated fails: in an envelope whose first record has no \<^verbatim>\<open>s3\<close>
  key, the notification for \<^verbatim>\<open>k.pdf\<close> that follows is well formed, and the
  response holds no entry for it.
\<close>

theorem skipped_sibling_is_not_described:
  "fst (lambda_handler demo_env
          (batch_event [sqs_record_of [''{\"eventName\":\"x\"}'', s3_notification ''k.pdf'']])
          world0)
     = Inr \<lparr>statusCode = 207,
            body = \<lparr>processed = 0, errors = 1, results = [],
                    errors_detail = [ErrorEntry ''error'' None (KeyError ''s3'')]\<rparr>\<rparr>
   \<and> notified_keys demo_env (sqs_record_of [''{\"eventName\":\"x\"}'', s3_notification ''k.pdf''])
       = [''k.pdf'']
   \<and> described_keys \<lparr>processed = 0, errors = 1, results = [],
                     errors_detail = [ErrorEntry ''error'' None (KeyError ''s3'')]\<rparr> = []"
  by code_simp


section \<open>Isolation of failures\<close>

lemma process_sqs_records_append:
  "process_sqs_records E (xs @ ys) (rs, es, w)
     = process_sqs_records E ys (process_sqs_records E xs (rs, es, w))"
proof (induction xs arbitrary: rs es w)
  case Nil
  then show ?case by simp
next
  case (Cons x xs)
  show ?case
  proof (cases "envelope_records E x")
    case (Inl e)
    then show ?thesis by (simp add: Cons.IH)
  next
    case (Inr recs)
    obtain y rs1 es1 w1 where "process_s3_records E recs (rs, es, w) = (y, rs1, es1, w1)"
      by (cases "process_s3_records E recs (rs, es, w)")
    with Inr show ?thesis by (cases y) (simp_all add: Cons.IH)
  qed
qed

lemma invalid_json_body:
  "subscript sqs ''body'' = Inr (JStr s) \<Longrightarrow> json_loads E s = None \<Longrightarrow>
     envelope_records E sqs = Inl JSONDecodeError"
  by (simp add: envelope_records_def and_then_def)

lemma length_error_keys:
  "length (error_keys es) + length (filter (\<lambda>e. e_document e = None) es) = length es"
  by (induction es) (auto simp: error_keys_def split: option.splits)

text \<open>
  Claim C2. Wherever a document stands in its envelope, when \<open>process_document\<close>
  fails on it, one failure entry with its key is appended and the loop goes on with the
  documents after it. Wherever an envelope stands in the batch, when its body is no
  JSON, one failure entry without a key is appended and the loop goes on with the
  envelopes after it. And for every batch the handler returns, \<open>process_document\<close>
  has been called once for every document record reached, and the entries are as many as
  these records and the failed envelopes together, whatever failed.
\<close>

theorem failures_are_isolated:
  "(process_s3_records E pre acc = (None, rs, es, w)
      \<and> s3_fields E r = Inr (b, k, t) \<and> process_document E b k t w = (Inl e, w1)
      \<longrightarrow> process_s3_records E (pre @ r # rest) acc
           = process_s3_records E rest (rs, es @ [ErrorEntry ''error'' (Some k) e], w1))
   \<and> (process_sqs_records E before acc = (rs, es, w)
      \<and> subscript sqs ''body'' = Inr (JStr s) \<and> json_loads E s = None
      \<longrightarrow> process_sqs_records E (before @ sqs # later) acc
           = process_sqs_records E later (rs, es @ [ErrorEntry ''error'' None JSONDecodeError], w))
   \<and> (subscript event ''Records'' = Inr v \<and> py_iter v = Inr sqss
      \<longrightarrow> (\<exists>resp w'. lambda_handler E event w = (Inr resp, w')
            \<and> s3_calls w' = s3_calls w + length (concat (map (reached_keys E) sqss))
            \<and> length (results (body resp)) + length (errors_detail (body resp))
                = length (concat (map (reached_keys E) sqss))
                  + length (filter (envelope_failed E) sqss)))"
proof -
  obtain rs0 es0 w0 where acc: "acc = (rs0, es0, w0)" by (cases acc)
  have a: "process_s3_records E (pre @ r # rest) acc
           = process_s3_records E rest (rs, es @ [ErrorEntry ''error'' (Some k) e], w1)"
    if p: "process_s3_records E pre acc = (None, rs, es, w)"
      and f: "s3_fields E r = Inr (b, k, t)"
      and d: "process_document E b k t w = (Inl e, w1)"
  proof -
    have "process_s3_records E (pre @ r # rest) acc = process_s3_records E (r # rest) (rs, es, w)"
      using p unfolding acc by (simp add: process_s3_records_append)
    also have "\<dots> = process_s3_records E rest (rs, es @ [ErrorEntry ''error'' (Some k) e], w1)"
      using f d by simp
    finally show ?thesis .
  qed
  have b: "process_sqs_records E (before @ sqs # later) acc
           = process_sqs_records E later (rs, es @ [ErrorEntry ''error'' None JSONDecodeError], w)"
    if p: "process_sqs_records E before acc = (rs, es, w)"
      and s: "subscript sqs ''body'' = Inr (JStr s)" and j: "json_loads E s = None"
  proof -
    have "process_sqs_records E (before @ sqs # later) acc
            = process_sqs_records E (sqs # later) (rs, es, w)"
      using p unfolding acc by (simp add: process_sqs_records_append)
    also have "\<dots> = process_sqs_records E later
                        (rs, es @ [ErrorEntry ''error'' None JSONDecodeError], w)"
      using invalid_json_body [OF s j] by simp
    finally show ?thesis .
  qed
  have c: "\<exists>resp w'. lambda_handler E event w = (Inr resp, w')
            \<and> s3_calls w' = s3_calls w + length (concat (map (reached_keys E) sqss))
            \<and> length (results (body resp)) + length (errors_detail (body resp))
                = length (concat (map (reached_keys E) sqss))
                  + length (filter (envelope_failed E) sqss)"
    if h: "subscript event ''Records'' = Inr v" "py_iter v = Inr sqss"
  proof -
    obtain rs1 es1 w' where p: "process_sqs_records E sqss ([], [], w) = (rs1, es1, w')"
      by (cases "process_sqs_records E sqss ([], [], w)")
    from process_sqs_records_outcome [OF p] obtain nrs nes where
      o: "rs1 = [] @ nrs" "es1 = [] @ nes"
        "mset (map r_document nrs @ error_keys nes) = mset (concat (map (reached_keys E) sqss))"
        "length (filter (\<lambda>e. e_document e = None) nes) = length (filter (envelope_failed E) sqss)"
        "s3_calls w' = s3_calls w + length (concat (map (reached_keys E) sqss))"
      by blast
    from o(3) have "size (mset (map r_document nrs @ error_keys nes))
                    = size (mset (concat (map (reached_keys E) sqss)))"
      by (simp only:)
    then have "length nrs + length (error_keys nes) = length (concat (map (reached_keys E) sqss))"
      by simp
    with o(4) length_error_keys [of nes]
    have "length nrs + length nes
            = length (concat (map (reached_keys E) sqss)) + length (filter (envelope_failed E) sqss)"
      by linarith
    with o(1,2,5) lambda_handler_outcome [OF h p] show ?thesis
      by simp
  qed
  from a b c show ?thesis by blast
qed


lemma demo_first_document:
  "process_s3_records demo_env [s3_record_of ''k1.pdf''] ([], [], world0)
     = (None, [ResultEntry ''success'' ''k1.pdf'' (JStr ''id-'')], [],
        world_after [demo_item ''id-'' ''k1.pdf''] 1)"
  by code_simp

lemma demo_missing_document:
  "process_document demo_env (JStr ''b'') ''missing.pdf'' (JStr ''t'')
       (world_after [demo_item ''id-'' ''k1.pdf''] 1)
     = (Inl (Exception ''Failed to download document from S3'' (LibraryError ''NoSuchKey'')),
        world_after [demo_item ''id-'' ''k1.pdf''] 2)"
  by code_simp

lemma demo_reached_keys:
  "concat (map (reached_keys demo_env) demo_batch) = [''k1.pdf'', ''missing.pdf'', ''k3.pdf'']"
  by (simp add: demo_batch_def reached_keys_def demo_batch_envelopes keys_of_records_def
        demo_record_fields record_ok_def)

theorem failures_are_isolated_witness:
  "process_s3_records demo_env
       ([s3_record_of ''k1.pdf''] @ s3_record_of ''missing.pdf'' # [s3_record_of ''k3.pdf''])
       ([], [], world0)
     = process_s3_records demo_env [s3_record_of ''k3.pdf'']
         ([ResultEntry ''success'' ''k1.pdf'' (JStr ''id-'')],
          [] @ [ErrorEntry ''error'' (Some ''missing.pdf'')
                  (Exception ''Failed to download document from S3''
                     (LibraryError ''NoSuchKey''))],
          world_after [demo_item ''id-'' ''k1.pdf''] 2)
   \<and> process_sqs_records demo_env
       ([] @ JObj [(''body'', JStr ''{not json'')] # [sqs_record_of [s3_notification ''k4.pdf'']])
       ([], [], world0)
     = process_sqs_records demo_env [sqs_record_of [s3_notification ''k4.pdf'']]
         ([], [] @ [ErrorEntry ''error'' None JSONDecodeError], world0)
   \<and> s3_calls (snd (lambda_handler demo_env (batch_event demo_batch) world0)) = 3"
proof -
  note t = failures_are_isolated
    [where E = demo_env and pre = "[s3_record_of ''k1.pdf'']" and acc = "([], [], world0)"
       and rs = "[ResultEntry ''success'' ''k1.pdf'' (JStr ''id-'')]" and es = "[]"
       and w = "world_after [demo_item ''id-'' ''k1.pdf''] 1"
       and r = "s3_record_of ''missing.pdf''" and b = "JStr ''b''" and k = "''missing.pdf''"
       and t = "JStr ''t''"
       and e = "Exception ''Failed to download document from S3'' (LibraryError ''NoSuchKey'')"
       and ?w1.0 = "world_after [demo_item ''id-'' ''k1.pdf''] 2"
       and rest = "[s3_record_of ''k3.pdf'']"]
  from t demo_first_document demo_record_fields(2) demo_missing_document
  have a: "process_s3_records demo_env
       ([s3_record_of ''k1.pdf''] @ s3_record_of ''missing.pdf'' # [s3_record_of ''k3.pdf''])
       ([], [], world0)
     = process_s3_records demo_env [s3_record_of ''k3.pdf'']
         ([ResultEntry ''success'' ''k1.pdf'' (JStr ''id-'')],
          [] @ [ErrorEntry ''error'' (Some ''missing.pdf'')
                  (Exception ''Failed to download document from S3''
                     (LibraryError ''NoSuchKey''))],
          world_after [demo_item ''id-'' ''k1.pdf''] 2)"
    by blast
  have j: "json_loads demo_env ''{not json'' = None"
    by code_simp
  note u = failures_are_isolated
    [where E = demo_env and before = "[]" and acc = "([], [], world0)"
       and rs = "[]" and es = "[]" and w = world0
       and sqs = "JObj [(''body'', JStr ''{not json'')]" and s = "''{not json''"
       and later = "[sqs_record_of [s3_notification ''k4.pdf'']]"
       and event = "batch_event demo_batch" and v = "JArr demo_batch" and sqss = demo_batch]
  from u j
  have b: "process_sqs_records demo_env
       ([] @ JObj [(''body'', JStr ''{not json'')] # [sqs_record_of [s3_notification ''k4.pdf'']])
       ([], [], world0)
     = process_sqs_records demo_env [sqs_record_of [s3_notification ''k4.pdf'']]
         ([], [] @ [ErrorEntry ''error'' None JSONDecodeError], world0)"
    by simp
  have h: "subscript (batch_event demo_batch) ''Records'' = Inr (JArr demo_batch)"
    "py_iter (JArr demo_batch) = Inr demo_batch"
    by (simp_all add: batch_event_def)
  from u h obtain resp w' where
    "lambda_handler demo_env (batch_event demo_batch) world0 = (Inr resp, w')"
    "s3_calls w' = s3_calls world0 + length (concat (map (reached_keys demo_env) demo_batch))"
    by blast
  then have c: "s3_calls (snd (lambda_handler demo_env (batch_event demo_batch) world0)) = 3"
    by (simp add: demo_reached_keys world0_def)
  from a b c show ?thesis by blast
qed


section \<open>Malformed document records\<close>

lemma process_s3_records_all_ok:
  assumes "list_all (record_ok E) pre"
  shows "\<exists>nrs nes w1. process_s3_records E pre (rs, es, w) = (None, rs @ nrs, es @ nes, w1)
          \<and> (\<forall>x\<in>set nes. e_document x \<noteq> None)
          \<and> s3_calls w1 = s3_calls w + length pre"
proof -
  obtain x rs1 es1 w1 where p: "process_s3_records E pre (rs, es, w) = (x, rs1, es1, w1)"
    by (cases "process_s3_records E pre (rs, es, w)")
  from process_s3_records_outcome [OF p] obtain nrs nes where
    o: "rs1 = rs @ nrs" "es1 = es @ nes"
      "\<forall>e\<in>set nes. e_status e = ''error'' \<and> e_document e \<noteq> None"
      "s3_calls w1 = s3_calls w + length (takeWhile (record_ok E) pre)"
      "x = None \<longleftrightarrow> list_all (record_ok E) pre"
    by blast
  from assms have "takeWhile (record_ok E) pre = pre"
    by (simp add: takeWhile_eq_all_conv list_all_iff)
  with o assms p show ?thesis by auto
qed

text \<open>
  Claim C9. When a record of an envelope is malformed and the records before it are
  well formed, the records before it are processed and keep their entries, one failure
  entry without a key is appended for the exception of the malformed record, and the
  outer loop goes on from there: the records after the malformed one are never looked
  at. A record without \<^verbatim>\<open>s3\<close>, \<^verbatim>\<open>bucket\<close>, \<^verbatim>\<open>object\<close> or
  \<^verbatim>\<open>eventTime\<close> is malformed, with the KeyError of the missing key.
\<close>

theorem malformed_record_fails_its_envelope:
  "(envelope_records E sqs = Inr (pre @ r # rest) \<and> list_all (record_ok E) pre
      \<and> s3_fields E r = Inl e
      \<longrightarrow> (\<exists>nrs nes w1.
            process_s3_records E pre (rs, es, w) = (None, rs @ nrs, es @ nes, w1)
            \<and> (\<forall>x\<in>set nes. e_document x \<noteq> None)
            \<and> s3_calls w1 = s3_calls w + length pre
            \<and> process_sqs_records E (sqs # later) (rs, es, w)
                = process_sqs_records E later
                    (rs @ nrs, es @ nes @ [ErrorEntry ''error'' None e], w1)))
   \<and> (map_of kvs ''s3'' = None \<longrightarrow> s3_fields E (JObj kvs) = Inl (KeyError ''s3''))
   \<and> (map_of kvs ''s3'' = Some (JObj s3) \<and> map_of s3 ''bucket'' = None
      \<longrightarrow> s3_fields E (JObj kvs) = Inl (KeyError ''bucket''))
   \<and> (map_of kvs ''s3'' = Some (JObj s3) \<and> map_of s3 ''bucket'' = Some (JObj bk)
      \<and> map_of bk ''name'' = Some n \<and> map_of s3 ''object'' = None
      \<longrightarrow> s3_fields E (JObj kvs) = Inl (KeyError ''object''))
   \<and> (map_of kvs ''s3'' = Some (JObj s3) \<and> map_of s3 ''bucket'' = Some (JObj bk)
      \<and> map_of bk ''name'' = Some n \<and> map_of s3 ''object'' = Some (JObj ob)
      \<and> map_of ob ''key'' = Some (JStr key) \<and> map_of kvs ''eventTime'' = None
      \<longrightarrow> s3_fields E (JObj kvs) = Inl (KeyError ''eventTime''))"
proof -
  have a: "\<exists>nrs nes w1.
            process_s3_records E pre (rs, es, w) = (None, rs @ nrs, es @ nes, w1)
            \<and> (\<forall>x\<in>set nes. e_document x \<noteq> None)
            \<and> s3_calls w1 = s3_calls w + length pre
            \<and> process_sqs_records E (sqs # later) (rs, es, w)
                = process_sqs_records E later
                    (rs @ nrs, es @ nes @ [ErrorEntry ''error'' None e], w1)"
    if u: "envelope_records E sqs = Inr (pre @ r # rest)"
      and ok: "list_all (record_ok E) pre" and f: "s3_fields E r = Inl e"
  proof -
    from process_s3_records_all_ok [OF ok, of rs es w] obtain nrs nes w1 where
      p: "process_s3_records E pre (rs, es, w) = (None, rs @ nrs, es @ nes, w1)"
        "\<forall>x\<in>set nes. e_document x \<noteq> None" "s3_calls w1 = s3_calls w + length pre"
      by blast
    have "process_s3_records E (pre @ r # rest) (rs, es, w)
            = process_s3_records E (r # rest) (rs @ nrs, es @ nes, w1)"
      using p(1) by (simp add: process_s3_records_append)
    also have "\<dots> = (Some e, rs @ nrs, es @ nes, w1)"
      using f by simp
    finally have "process_sqs_records E (sqs # later) (rs, es, w)
                = process_sqs_records E later
                    (rs @ nrs, es @ nes @ [ErrorEntry ''error'' None e], w1)"
      using u by simp
    with p show ?thesis by blast
  qed
  have b: "map_of kvs ''s3'' = None \<longrightarrow> s3_fields E (JObj kvs) = Inl (KeyError ''s3'')"
    by (simp add: s3_fields_def and_then_def)
  have c: "map_of kvs ''s3'' = Some (JObj s3) \<and> map_of s3 ''bucket'' = None
      \<longrightarrow> s3_fields E (JObj kvs) = Inl (KeyError ''bucket'')"
    by (simp add: s3_fields_def and_then_def)
  have d: "map_of kvs ''s3'' = Some (JObj s3) \<and> map_of s3 ''bucket'' = Some (JObj bk)
      \<and> map_of bk ''name'' = Some n \<and> map_of s3 ''object'' = None
      \<longrightarrow> s3_fields E (JObj kvs) = Inl (KeyError ''object'')"
    by (simp add: s3_fields_def and_then_def)
  have e: "map_of kvs ''s3'' = Some (JObj s3) \<and> map_of s3 ''bucket'' = Some (JObj bk)
      \<and> map_of bk ''name'' = Some n \<and> map_of s3 ''object'' = Some (JObj ob)
      \<and> map_of ob ''key'' = Some (JStr key) \<and> map_of kvs ''eventTime'' = None
      \<longrightarrow> s3_fields E (JObj kvs) = Inl (KeyError ''eventTime'')"
    by (simp add: s3_fields_def and_then_def)
  from a b c d e show ?thesis by blast
qed

lemma demo_malformed_envelope:
  "envelope_records demo_env
     (sqs_record_of [s3_notification ''k1.pdf'', ''{\"eventName\":\"x\"}'',
                     s3_notification ''k3.pdf''])
     = Inr ([s3_record_of ''k1.pdf''] @ JObj [(''eventName'', JStr ''x'')]
              # [s3_record_of ''k3.pdf''])"
  by code_simp

theorem malformed_record_fails_its_envelope_witness:
  "process_sqs_records demo_env
       [sqs_record_of [s3_notification ''k1.pdf'', ''{\"eventName\":\"x\"}'',
                       s3_notification ''k3.pdf'']]
       ([], [], world0)
     = ([ResultEntry ''success'' ''k1.pdf'' (JStr ''id-'')],
        [ErrorEntry ''error'' None (KeyError ''s3'')],
        world_after [demo_item ''id-'' ''k1.pdf''] 1)
   \<and> s3_fields demo_env (JObj [(''eventName'', JStr ''x'')]) = Inl (KeyError ''s3'')
   \<and> s3_fields demo_env (JObj [(''s3'', JObj [])]) = Inl (KeyError ''bucket'')
   \<and> s3_fields demo_env (JObj [(''s3'', JObj [(''bucket'', JObj [(''name'', JStr ''b'')])])])
       = Inl (KeyError ''object'')
   \<and> s3_fields demo_env
         (JObj [(''s3'', JObj [(''bucket'', JObj [(''name'', JStr ''b'')]),
                               (''object'', JObj [(''key'', JStr ''k'')])])])
       = Inl (KeyError ''eventTime'')"
proof -
  have ok: "list_all (record_ok demo_env) [s3_record_of ''k1.pdf'']"
    by (simp add: record_ok_def demo_record_fields)
  note t = malformed_record_fails_its_envelope
    [where E = demo_env and pre = "[s3_record_of ''k1.pdf'']"
       and r = "JObj [(''eventName'', JStr ''x'')]" and rest = "[s3_record_of ''k3.pdf'']"
       and sqs = "sqs_record_of [s3_notification ''k1.pdf'', ''{\"eventName\":\"x\"}'',
                                 s3_notification ''k3.pdf'']"
       and e = "KeyError ''s3''" and rs = "[]" and es = "[]" and w = world0 and later = "[]"
       and kvs = "[(''eventName'', JStr ''x'')]"]
  from t have f1: "s3_fields demo_env (JObj [(''eventName'', JStr ''x'')]) = Inl (KeyError ''s3'')"
    by simp
  from t demo_malformed_envelope ok f1 obtain nrs nes w1 where
    p: "process_s3_records demo_env [s3_record_of ''k1.pdf''] ([], [], world0)
          = (None, [] @ nrs, [] @ nes, w1)"
      "process_sqs_records demo_env
         [sqs_record_of [s3_notification ''k1.pdf'', ''{\"eventName\":\"x\"}'',
                       s3_notification ''k3.pdf'']] ([], [], world0)
        = process_sqs_records demo_env []
            ([] @ nrs, [] @ nes @ [ErrorEntry ''error'' None (KeyError ''s3'')], w1)"
    by blast
  from p(1) demo_first_document
  have "nrs = [ResultEntry ''success'' ''k1.pdf'' (JStr ''id-'')]" "nes = []"
    "w1 = world_after [demo_item ''id-'' ''k1.pdf''] 1"
    by simp_all
  with p(2) have a: "process_sqs_records demo_env
       [sqs_record_of [s3_notification ''k1.pdf'', ''{\"eventName\":\"x\"}'',
                       s3_notification ''k3.pdf'']]
       ([], [], world0)
     = ([ResultEntry ''success'' ''k1.pdf'' (JStr ''id-'')],
        [ErrorEntry ''error'' None (KeyError ''s3'')],
        world_after [demo_item ''id-'' ''k1.pdf''] 1)"
    by simp
  from malformed_record_fails_its_envelope
    [where E = demo_env and kvs = "[(''s3'', JObj [])]" and ?s3.0 = "[]"]
  have f2: "s3_fields demo_env (JObj [(''s3'', JObj [])]) = Inl (KeyError ''bucket'')"
    by simp
  from malformed_record_fails_its_envelope
    [where E = demo_env and kvs = "[(''s3'', JObj [(''bucket'', JObj [(''name'', JStr ''b'')])])]"
       and ?s3.0 = "[(''bucket'', JObj [(''name'', JStr ''b'')])]"
       and bk = "[(''name'', JStr ''b'')]" and n = "JStr ''b''"]
  have f3: "s3_fields demo_env (JObj [(''s3'', JObj [(''bucket'', JObj [(''name'', JStr ''b'')])])])
       = Inl (KeyError ''object'')"
    by simp
  from malformed_record_fails_its_envelope
    [where E = demo_env
       and kvs = "[(''s3'', JObj [(''bucket'', JObj [(''name'', JStr ''b'')]),
                                  (''object'', JObj [(''key'', JStr ''k'')])])]"
       and ?s3.0 = "[(''bucket'', JObj [(''name'', JStr ''b'')]),
                     (''object'', JObj [(''key'', JStr ''k'')])]"
       and bk = "[(''name'', JStr ''b'')]" and n = "JStr ''b''"
       and ob = "[(''key'', JStr ''k'')]" and key = "''k''"]
  have f4: "s3_fields demo_env
         (JObj [(''s3'', JObj [(''bucket'', JObj [(''name'', JStr ''b'')]),
                               (''object'', JObj [(''key'', JStr ''k'')])])])
       = Inl (KeyError ''eventTime'')"
    by simp
  from a f1 f2 f3 f4 show ?thesis by blast
qed

section \<open>Loading the schema and the prompt template\<close>

lemma get_page_count_not_Inl: "get_page_count E content ct \<noteq> Inl e"
  by (simp add: get_page_count_def split: sum.split)

text \<open>
  Claim C7, as the code has it. Every call of \<open>load_schema\<close> and of
  \<open>load_prompt_template\<close> gives the same result, but nothing is kept between
  documents: every \<open>process_document\<close> whose fetch succeeds reads the schema file once
  more, and the prompt file once more when the schema could be loaded; one whose fetch
  fails reads neither.
\<close>

theorem schema_and_prompt_are_read_per_document:
  "fst (load_schema E w1) = fst (load_schema E w2)
   \<and> fst (load_prompt_template E w1) = fst (load_prompt_template E w2)
   \<and> (process_document E bucket key t w = (r, w') \<longrightarrow>
        (case s3_get_object E (s3_calls w) bucket key of
           Inl e \<Rightarrow> schema_reads w' = schema_reads w \<and> prompt_reads w' = prompt_reads w
         | Inr d \<Rightarrow>
             schema_reads w' = Suc (schema_reads w)
             \<and> prompt_reads w' =
                 (case schema_file E of
                    Inl e \<Rightarrow> prompt_reads w
                  | Inr j \<Rightarrow> Suc (prompt_reads w))))"
proof -
  have "case s3_get_object E (s3_calls w) bucket key of
           Inl e \<Rightarrow> schema_reads w' = schema_reads w \<and> prompt_reads w' = prompt_reads w
         | Inr d \<Rightarrow>
             schema_reads w' = Suc (schema_reads w)
             \<and> prompt_reads w' =
                 (case schema_file E of
                    Inl e \<Rightarrow> prompt_reads w
                  | Inr j \<Rightarrow> Suc (prompt_reads w))"
    if "process_document E bucket key t w = (r, w')"
    using that
    unfolding process_document_def Let_def
    by (auto split: sum.splits prod.splits
             simp: get_page_count_not_Inl load_schema_def load_prompt_template_def
             dest!: invoke_bedrock_frame store_record_writes)
  then show ?thesis
    by (simp add: load_schema_def load_prompt_template_def)
qed

theorem schema_and_prompt_are_read_per_document_witness:
  "schema_reads (snd (process_document demo_env (JStr ''b'') ''k.pdf'' (JStr ''t'') world0)) = 1
   \<and> prompt_reads (snd (process_document demo_env (JStr ''b'') ''k.pdf'' (JStr ''t'') world0)) = 1
   \<and> schema_reads (snd (process_document demo_env (JStr ''b'') ''missing.pdf'' (JStr ''t'') world0))
       = 0
   \<and> fst (load_schema demo_env world0)
       = fst (load_schema demo_env (world_after [demo_item ''id-'' ''k1.pdf''] 1))"
proof -
  have g: "s3_get_object demo_env (s3_calls world0) (JStr ''b'') ''k.pdf''
             = Inr ([], Some ''application/pdf'')"
    "s3_get_object demo_env (s3_calls world0) (JStr ''b'') ''missing.pdf''
             = Inl (LibraryError ''NoSuchKey'')"
    "schema_file demo_env = Inr (JObj [(''title'', JStr ''string'')])"
    by (simp_all add: demo_env_def)
  have z: "schema_reads world0 = 0" "prompt_reads world0 = 0"
    by (simp_all add: world0_def)
  from schema_and_prompt_are_read_per_document
    [where E = demo_env and bucket = "JStr ''b''" and key = "''k.pdf''" and t = "JStr ''t''"
       and w = world0
       and r = "fst (process_document demo_env (JStr ''b'') ''k.pdf'' (JStr ''t'') world0)"
       and w' = "snd (process_document demo_env (JStr ''b'') ''k.pdf'' (JStr ''t'') world0)"
       and ?w1.0 = world0 and ?w2.0 = "world_after [demo_item ''id-'' ''k1.pdf''] 1"]
  have a: "schema_reads (snd (process_document demo_env (JStr ''b'') ''k.pdf'' (JStr ''t'') world0)) = 1
     \<and> prompt_reads (snd (process_document demo_env (JStr ''b'') ''k.pdf'' (JStr ''t'') world0)) = 1
     \<and> fst (load_schema demo_env world0)
       = fst (load_schema demo_env (world_after [demo_item ''id-'' ''k1.pdf''] 1))"
    by (simp add: g z)
  from schema_and_prompt_are_read_per_document
    [where E = demo_env and bucket = "JStr ''b''" and key = "''missing.pdf''" and t = "JStr ''t''"
       and w = world0
       and r = "fst (process_document demo_env (JStr ''b'') ''missing.pdf'' (JStr ''t'') world0)"
       and w' = "snd (process_document demo_env (JStr ''b'') ''missing.pdf'' (JStr ''t'') world0)"]
  have b: "schema_reads (snd (process_document demo_env (JStr ''b'') ''missing.pdf'' (JStr ''t'')
             world0)) = 0"
    by (simp add: g z)
  from a b show ?thesis by blast
qed

text \<open>
  Claim C7 as stated fails: after one batch of two documents the schema file and the
  prompt file have each been read twice.
\<close>

theorem schema_is_read_again_for_each_document:
  "schema_reads (snd (lambda_handler demo_env
      (batch_event [sqs_record_of [s3_notification ''k1.pdf'', s3_notification ''k2.pdf'']])
      world0)) = 2
   \<and> prompt_reads (snd (lambda_handler demo_env
      (batch_event [sqs_record_of [s3_notification ''k1.pdf'', s3_notification ''k2.pdf'']])
      world0)) = 2"
  by code_simp


end
